theory Spec2Isabelle
  imports Complex_Main "HOL-Library.Multiset"
begin

section \<open>Data model (types.ts)\<close>

text \<open>
  A JavaScript number is a finite IEEE-754 double, modelled as the real number it
  denotes; the arithmetic of the code rounds each result to the nearest double
  (\<open>double_round\<close> below). The stacking order, declared \<open>Type.INTEGER\<close> in the
  response schema, is an \<open>int\<close>; pixel dimensions (\<open>naturalWidth\<close>,
  \<open>naturalHeight\<close>), array indices and the clock are naturals. A response field that the
  schema does not list under \<open>required\<close> is an \<open>option\<close>. A decimal literal of the
  source (0.9, 0.5) is written as that decimal: no arithmetic is done on it, and it is the
  value that the program prints for it.
\<close>

datatype ElementType = PERSON | OBJECT | TEXT | LOGO | BACKGROUND | EFFECT

text \<open>
  An optional property of an object held in memory (\<open>subtype?\<close>, \<open>maskUrl?\<close>): the
  object has no such key, or has the key with the value \<open>undefined\<close>, or has it with a
  value. Reading the property gives \<open>undefined\<close> in the first two cases alike.
\<close>

datatype 'a optional = Absent | Undefined | Defined 'a

record BoundingBox =
  ymin :: real
  xmin :: real
  ymax :: real
  xmax :: real

record LayerData =
  layer_id :: string
  label :: string
  layer_type :: ElementType
  subtype :: "string optional"
  confidence :: real
  box :: BoundingBox
  zIndex :: int
  dominantColor :: string
  visible :: bool
  maskUrl :: "string optional"

record Point =
  x_coord :: real
  y_coord :: real

record CompositionAnalysis =
  ruleOfThirdsScore :: real
  visualBalanceScore :: real
  dominantColors :: "string list"
  brightnessMap :: string
  contrastLevel :: string
  suggestions :: "string list"
  eyeContact :: bool
  visualWeightCenter :: Point

record ProcessingResult =
  layers :: "LayerData list"
  analysis :: CompositionAnalysis

datatype Status = IDLE | ANALYZING | SUCCESS | ERROR

record AppState =
  status :: Status
  imageSrc :: "string option"
  result :: "ProcessingResult option"
  error :: "string option"

section \<open>The remote response (layerSchema, analysisSchema, responseSchema)\<close>

text \<open>
  The parsed response \<open>rawData\<close>, shaped by the declared response schema: the fields under
  \<open>required\<close> are present, \<open>subtype\<close>, \<open>confidence\<close>, \<open>brightnessMap\<close>,
  \<open>contrastLevel\<close>, \<open>weightCenterX\<close> and \<open>weightCenterY\<close> may be missing.
\<close>

record RawLayer =
  raw_label :: string
  raw_type :: ElementType
  raw_subtype :: "string option"
  raw_confidence :: "real option"
  raw_ymin :: real
  raw_xmin :: real
  raw_ymax :: real
  raw_xmax :: real
  raw_zIndex :: int
  raw_dominantColor :: string

record RawAnalysis =
  raw_ruleOfThirdsScore :: real
  raw_visualBalanceScore :: real
  raw_dominantColors :: "string list"
  raw_brightnessMap :: "string option"
  raw_contrastLevel :: "string option"
  raw_suggestions :: "string list"
  raw_eyeContact :: bool
  raw_weightCenterX :: "real option"
  raw_weightCenterY :: "real option"

record RawData =
  raw_layers :: "RawLayer list"
  raw_analysis :: RawAnalysis

section \<open>JavaScript built-ins used by the code\<close>

text \<open>\<open>a || d\<close> on a possibly missing number: \<open>undefined\<close> and \<open>0\<close> are falsy.\<close>

definition or_number :: "real option \<Rightarrow> real \<Rightarrow> real" where
  "or_number a d = (case a of None \<Rightarrow> d | Some v \<Rightarrow> if v = 0 then d else v)"

text \<open>\<open>a || d\<close> on a possibly missing string: \<open>undefined\<close> and the empty string are falsy.\<close>

definition or_string :: "string option \<Rightarrow> string \<Rightarrow> string" where
  "or_string a d = (case a of None \<Rightarrow> d | Some v \<Rightarrow> if v = [] then d else v)"

text \<open>
  Rounding to the nearest double, ties to the even significand (IEEE-754
  \<open>roundTiesToEven\<close>, the rounding of every arithmetic operation of the language).
  \<open>bit_length n\<close> is the number of binary digits of \<open>n\<close>; \<open>binade a\<close> is, for
  \<open>a > 0\<close>, the exponent \<open>e\<close> with \<open>2^e \<le> a < 2^(e+1)\<close>. A double of that binade
  is a multiple of \<open>2^(e-52)\<close> (53 significant bits); below \<open>2^-1022\<close> the spacing
  stays \<open>2^-1074\<close> (subnormal numbers). A result whose magnitude reaches \<open>2^1024\<close>
  is \<open>Infinity\<close> in the program and lies outside the model, as do \<open>NaN\<close> and the
  sign of zero: the theorems about arithmetic bound their inputs so that none occurs.
\<close>

fun bit_length :: "nat \<Rightarrow> nat" where
  "bit_length n = (if n = 0 then 0 else Suc (bit_length (n div 2)))"

declare bit_length.simps [simp del]

definition binade :: "real \<Rightarrow> int" where
  "binade a = (if 1 \<le> a then int (bit_length (nat \<lfloor>a\<rfloor>)) - 1
               else - int (bit_length (nat (\<lceil>1 / a\<rceil> - 1))))"

definition roundTiesToEven :: "real \<Rightarrow> int" where
  "roundTiesToEven a =
     (let n = \<lfloor>a\<rfloor>
      in if a - of_int n < 1 / 2 then n
         else if 1 / 2 < a - of_int n then n + 1
         else if even n then n else n + 1)"

definition double_round :: "real \<Rightarrow> real" where
  "double_round a =
     (if a = 0 then 0
      else (let u = 2 powi (max (binade \<bar>a\<bar>) (- 1022) - 52)
            in of_int (roundTiesToEven (a / u)) * u))"

text \<open>The operators \<open>+\<close>, \<open>-\<close>, \<open>*\<close> and \<open>/\<close> on numbers (the code divides by 1000 only).\<close>

definition double_add :: "real \<Rightarrow> real \<Rightarrow> real" where
  "double_add a b = double_round (a + b)"

definition double_sub :: "real \<Rightarrow> real \<Rightarrow> real" where
  "double_sub a b = double_round (a - b)"

definition double_mul :: "real \<Rightarrow> real \<Rightarrow> real" where
  "double_mul a b = double_round (a * b)"

definition double_div :: "real \<Rightarrow> real \<Rightarrow> real" where
  "double_div a b = double_round (a / b)"

text \<open>The decimal rendering of a non-negative integer inside a template literal.\<close>

definition digit_char :: "nat \<Rightarrow> char" where
  "digit_char d = ''0123456789'' ! d"

fun show_nat :: "nat \<Rightarrow> string" where
  "show_nat n = (if n < 10 then [digit_char n] else show_nat (n div 10) @ [digit_char (n mod 10)])"

declare show_nat.simps [simp del]

text \<open>
  \<open>Array.prototype.sort(cmp)\<close>: a stable sort (ECMAScript 2019); an element goes in
  front of the first later element that the comparator does not put before it.
\<close>

fun insert_sorted :: "('a \<Rightarrow> 'a \<Rightarrow> int) \<Rightarrow> 'a \<Rightarrow> 'a list \<Rightarrow> 'a list" where
  "insert_sorted cmp a [] = [a]"
| "insert_sorted cmp a (b # bs) =
     (if cmp a b \<le> 0 then a # b # bs else b # insert_sorted cmp a bs)"

fun Array_sort :: "('a \<Rightarrow> 'a \<Rightarrow> int) \<Rightarrow> 'a list \<Rightarrow> 'a list" where
  "Array_sort cmp [] = []"
| "Array_sort cmp (a # as) = insert_sorted cmp a (Array_sort cmp as)"

text \<open>
  Values as \<open>JSON.stringify\<close> sees them: an object is the list of its own properties
  in creation order, and a property may hold \<open>undefined\<close>.
\<close>

datatype js_value =
    JSUndefined
  | JSNull
  | JSBoolean bool
  | JSNumber real
  | JSString string
  | JSArray "js_value list"
  | JSObject "(string \<times> js_value) list"

text \<open>
  A JSON document. The text that \<open>JSON.stringify\<close> writes and \<open>JSON.parse\<close> reads is
  represented by the tree it denotes: indentation, the escaping of characters and the
  digits of a number are below the model (a finite double is written with digits that
  read back as the same double).
\<close>

datatype json =
    JNull
  | JBoolean bool
  | JNumber real
  | JString string
  | JArray "json list"
  | JObject "(string \<times> json) list"

text \<open>
  \<open>JSON.stringify\<close> without a replacer, on values without \<open>toJSON\<close> (ECMAScript,
  SerializeJSONProperty, SerializeJSONArray, SerializeJSONObject): \<open>undefined\<close> has no
  serialization; in an array it is written as \<open>null\<close>, in an object the property is
  left out.
\<close>

fun SerializeJSONProperty :: "js_value \<Rightarrow> json option"
  and SerializeJSONArray :: "js_value list \<Rightarrow> json list"
  and SerializeJSONObject :: "(string \<times> js_value) list \<Rightarrow> (string \<times> json) list"
where
  "SerializeJSONProperty JSUndefined = None"
| "SerializeJSONProperty JSNull = Some JNull"
| "SerializeJSONProperty (JSBoolean b) = Some (JBoolean b)"
| "SerializeJSONProperty (JSNumber n) = Some (JNumber n)"
| "SerializeJSONProperty (JSString s) = Some (JString s)"
| "SerializeJSONProperty (JSArray vs) = Some (JArray (SerializeJSONArray vs))"
| "SerializeJSONProperty (JSObject ps) = Some (JObject (SerializeJSONObject ps))"
| "SerializeJSONArray [] = []"
| "SerializeJSONArray (v # vs) =
     (case SerializeJSONProperty v of None \<Rightarrow> JNull | Some j \<Rightarrow> j) # SerializeJSONArray vs"
| "SerializeJSONObject [] = []"
| "SerializeJSONObject ((k, v) # ps) =
     (case SerializeJSONProperty v of
        None \<Rightarrow> SerializeJSONObject ps
      | Some j \<Rightarrow> (k, j) # SerializeJSONObject ps)"

definition JSON_stringify :: "js_value \<Rightarrow> json option" where
  "JSON_stringify v = SerializeJSONProperty v"

text \<open>\<open>JSON.parse\<close> without a reviver: the value that the document denotes.\<close>

fun JSON_parse_value :: "json \<Rightarrow> js_value"
  and JSON_parse_elements :: "json list \<Rightarrow> js_value list"
  and JSON_parse_members :: "(string \<times> json) list \<Rightarrow> (string \<times> js_value) list"
where
  "JSON_parse_value JNull = JSNull"
| "JSON_parse_value (JBoolean b) = JSBoolean b"
| "JSON_parse_value (JNumber n) = JSNumber n"
| "JSON_parse_value (JString s) = JSString s"
| "JSON_parse_value (JArray js) = JSArray (JSON_parse_elements js)"
| "JSON_parse_value (JObject ms) = JSObject (JSON_parse_members ms)"
| "JSON_parse_elements [] = []"
| "JSON_parse_elements (j # js) = JSON_parse_value j # JSON_parse_elements js"
| "JSON_parse_members [] = []"
| "JSON_parse_members ((k, j) # ms) = (k, JSON_parse_value j) # JSON_parse_members ms"

text \<open>Reading a property: \<open>undefined\<close> when the object has no such key.\<close>

fun get_property :: "js_value \<Rightarrow> string \<Rightarrow> js_value" where
  "get_property (JSObject ps) k = (case map_of ps k of None \<Rightarrow> JSUndefined | Some v \<Rightarrow> v)"
| "get_property v k = JSUndefined"

section \<open>Response normalization (services/geminiService.ts, analyzeThumbnail)\<close>

datatype js_error = Error string

text \<open>
  The callback of \<open>rawData.layers.map\<close> (lines 105-120); \<open>now\<close> is the value that
  \<open>Date.now()\<close> returns in this call. The object literal always has the key
  \<open>subtype\<close>, with the value \<open>undefined\<close> when the response gave none, and never
  the key \<open>maskUrl\<close>.
\<close>

definition toLayer :: "nat \<Rightarrow> nat \<Rightarrow> RawLayer \<Rightarrow> LayerData" where
  "toLayer now index layer =
     \<lparr> layer_id = ''layer-'' @ show_nat index @ ''-'' @ show_nat now,
       label = raw_label layer,
       layer_type = raw_type layer,
       subtype = (case raw_subtype layer of None \<Rightarrow> Undefined | Some s \<Rightarrow> Defined s),
       confidence = or_number (raw_confidence layer) 0.9,
       box = \<lparr> ymin = double_div (raw_ymin layer) 1000,
               xmin = double_div (raw_xmin layer) 1000,
               ymax = double_div (raw_ymax layer) 1000,
               xmax = double_div (raw_xmax layer) 1000 \<rparr>,
       zIndex = raw_zIndex layer,
       dominantColor = raw_dominantColor layer,
       visible = True,
       maskUrl = Absent \<rparr>"

text \<open>The layer that \<open>layers.unshift\<close> adds (lines 125-134).\<close>

definition defaultBackground :: LayerData where
  "defaultBackground =
     \<lparr> layer_id = ''layer-bg-default'',
       label = ''Background Environment'',
       layer_type = BACKGROUND,
       subtype = Absent,
       confidence = 0.5,
       box = \<lparr> ymin = 0, xmin = 0, ymax = 1, xmax = 1 \<rparr>,
       zIndex = 0,
       dominantColor = ''#000000'',
       visible = True,
       maskUrl = Absent \<rparr>"

text \<open>\<open>rawData.layers.map((layer, index) => ...)\<close>; \<open>clock i\<close> is \<open>Date.now()\<close> in call \<open>i\<close>.\<close>

definition mapLayers :: "(nat \<Rightarrow> nat) \<Rightarrow> RawLayer list \<Rightarrow> LayerData list" where
  "mapLayers clock raws = map (\<lambda>(index, layer). toLayer (clock index) index layer) (enumerate 0 raws)"

definition hasBackground :: "LayerData list \<Rightarrow> bool" where
  "hasBackground ls = list_ex (\<lambda>l. layer_type l = BACKGROUND) ls"

text \<open>The layer array just before \<open>layers.sort\<close> (lines 105-135).\<close>

definition unsortedLayers :: "(nat \<Rightarrow> nat) \<Rightarrow> RawLayer list \<Rightarrow> LayerData list" where
  "unsortedLayers clock raws =
     (let ls = mapLayers clock raws
      in if \<not> hasBackground ls then defaultBackground # ls else ls)"

definition byZIndex :: "LayerData \<Rightarrow> LayerData \<Rightarrow> int" where
  "byZIndex a b = zIndex a - zIndex b"

definition toAnalysis :: "RawAnalysis \<Rightarrow> CompositionAnalysis" where
  "toAnalysis a =
     \<lparr> ruleOfThirdsScore = raw_ruleOfThirdsScore a,
       visualBalanceScore = raw_visualBalanceScore a,
       dominantColors = raw_dominantColors a,
       brightnessMap = or_string (raw_brightnessMap a) ''Balanced'',
       contrastLevel = or_string (raw_contrastLevel a) ''Medium'',
       suggestions = raw_suggestions a,
       eyeContact = raw_eyeContact a,
       visualWeightCenter = \<lparr> x_coord = or_number (raw_weightCenterX a) 50,
                              y_coord = or_number (raw_weightCenterY a) 50 \<rparr> \<rparr>"

text \<open>Lines 105-155 of \<open>analyzeThumbnail\<close>: from the parsed response to the result.\<close>

definition normalizeResponse :: "(nat \<Rightarrow> nat) \<Rightarrow> RawData \<Rightarrow> ProcessingResult" where
  "normalizeResponse clock rawData =
     \<lparr> layers = Array_sort byZIndex (unsortedLayers clock (raw_layers rawData)),
       analysis = toAnalysis (raw_analysis rawData) \<rparr>"

text \<open>
  What \<open>analyzeThumbnail\<close> reads from outside: the configured key, the outcome of the
  remote call on the image data (a rejection, or the response's \<open>text\<close>, which may be
  missing), \<open>JSON.parse\<close> and the clock. \<open>JSON_parse\<close> is \<open>Inl\<close> where the code
  throws before it builds a result: on malformed text, and on a document without the
  \<open>layers\<close> array or the \<open>analysis\<close> object, which the property reads reject.
  The \<open>catch\<close> block logs the error and throws it again, so every error reaches the
  caller unchanged.
\<close>

record Env =
  API_KEY :: "string option"
  generateContent :: "string option \<Rightarrow> js_error + string option"
  JSON_parse :: "string \<Rightarrow> js_error + RawData"
  Date_now :: "nat \<Rightarrow> nat"

definition analyzeThumbnail :: "Env \<Rightarrow> string option \<Rightarrow> js_error + ProcessingResult" where
  "analyzeThumbnail env base64Image =
     (if API_KEY env = None \<or> API_KEY env = Some []
      then Inl (Error ''API Key is missing. Please set the API_KEY environment variable.'')
      else (case generateContent env base64Image of
          Inl e \<Rightarrow> Inl e
        | Inr text \<Rightarrow>
            (case text of
               None \<Rightarrow> Inl (Error ''No response from AI'')
             | Some t \<Rightarrow>
                 (if t = [] then Inl (Error ''No response from AI'')
                  else (case JSON_parse env t of
                      Inl e \<Rightarrow> Inl e
                    | Inr rawData \<Rightarrow> Inr (normalizeResponse (Date_now env) rawData))))))"

section \<open>Cropping (utils/imageProcessing.ts, cropLayer)\<close>

record HTMLImageElement =
  naturalWidth :: nat
  naturalHeight :: nat

text \<open>The nine arguments of \<open>ctx.drawImage\<close>: the image, a source and a destination rectangle.\<close>

record DrawImage =
  sx :: real
  sy :: real
  sw :: real
  sh :: real
  dx :: real
  dy :: real
  dw :: real
  dh :: real

text \<open>The canvas when \<open>toDataURL\<close> is called: the size assigned to it and the call drawn.\<close>

record Canvas =
  canvas_width :: real
  canvas_height :: real
  drawn :: DrawImage

text \<open>
  The host document: whether \<open>canvas.getContext("2d")\<close> returns a context, and what
  drawing followed by \<open>canvas.toDataURL("image/png")\<close> gives for an image and a canvas
  (a data URL, or the exception that the host raises).
\<close>

record Document =
  getContext2d :: bool
  toDataURL :: "HTMLImageElement \<Rightarrow> Canvas \<Rightarrow> js_error + string"

text \<open>Lines 16-41: the pixel coordinates and the \<open>drawImage\<close> call made from them.\<close>

definition cropLayer_drawImage :: "HTMLImageElement \<Rightarrow> BoundingBox \<Rightarrow> DrawImage" where
  "cropLayer_drawImage imageElement b =
     (let width = real (naturalWidth imageElement);
          height = real (naturalHeight imageElement);
          sx0 = double_mul (xmin b) width;
          sy0 = double_mul (ymin b) height;
          sw0 = double_mul (double_sub (xmax b) (xmin b)) width;
          sh0 = double_mul (double_sub (ymax b) (ymin b)) height;
          padding = 0
      in \<lparr> sx = double_sub sx0 padding, sy = double_sub sy0 padding,
           sw = double_add sw0 (double_mul padding 2),
           sh = double_add sh0 (double_mul padding 2),
           dx = 0, dy = 0, dw = sw0, dh = sh0 \<rparr>)"

definition cropLayer :: "Document \<Rightarrow> HTMLImageElement \<Rightarrow> BoundingBox \<Rightarrow> js_error + string" where
  "cropLayer doc imageElement b =
     (if \<not> getContext2d doc then Inr []
      else (let d = cropLayer_drawImage imageElement b
            in toDataURL doc imageElement
                 \<lparr> canvas_width = dw d, canvas_height = dh d, drawn = d \<rparr>))"

section \<open>The application state (App.tsx)\<close>

datatype Tab = LayersTab | AnalysisTab

text \<open>The four \<open>useState\<close> cells of the component.\<close>

record App =
  state :: AppState
  activeTab :: Tab
  selectedLayerId :: "string option"
  originalImage :: "HTMLImageElement option"

definition initialApp :: App where
  "initialApp =
     \<lparr> state = \<lparr> status = IDLE, imageSrc = None, result = None, error = None \<rparr>,
       activeTab = LayersTab,
       selectedLayerId = None,
       originalImage = None \<rparr>"

text \<open>\<open>base64.split(',')[1]\<close>: the text between the first and the second comma.\<close>

definition split_comma_1 :: "string \<Rightarrow> string option" where
  "split_comma_1 base64 =
     (case dropWhile (\<lambda>c. c \<noteq> CHR '','') base64 of
        [] \<Rightarrow> None
      | _ # rest \<Rightarrow> Some (takeWhile (\<lambda>c. c \<noteq> CHR '','') rest))"

text \<open>\<open>handleImageSelected\<close> up to the \<open>await\<close> (line 28).\<close>

definition handleImageSelected_begin :: "string \<Rightarrow> App \<Rightarrow> App" where
  "handleImageSelected_begin base64 app =
     app\<lparr> state := (state app)\<lparr> status := ANALYZING, imageSrc := Some base64, error := None \<rparr> \<rparr>"

text \<open>\<open>img.onload\<close> (line 33).\<close>

definition handleImageLoaded :: "HTMLImageElement \<Rightarrow> App \<Rightarrow> App" where
  "handleImageLoaded img app = app\<lparr> originalImage := Some img \<rparr>"

text \<open>
  \<open>handleImageSelected\<close> after the \<open>await\<close> (lines 35-51): the promise of
  \<open>analyzeThumbnail\<close> resolves with a result or rejects with an error.
\<close>

definition handleImageSelected_settle :: "js_error + ProcessingResult \<Rightarrow> App \<Rightarrow> App" where
  "handleImageSelected_settle outcome app =
     (case outcome of
        Inr r \<Rightarrow> app\<lparr> state := (state app)\<lparr> status := SUCCESS, result := Some r \<rparr> \<rparr>
      | Inl (Error message) \<Rightarrow>
          app\<lparr> state := (state app)\<lparr> status := ERROR,
                 error := Some (if message = [] then ''Failed to analyze image'' else message) \<rparr> \<rparr>)"

text \<open>The array \<open>newLayers\<close> of \<open>handleToggleVisibility\<close> (lines 56-58).\<close>

definition newLayers :: "string \<Rightarrow> LayerData list \<Rightarrow> LayerData list" where
  "newLayers i ls = map (\<lambda>l. if layer_id l = i then l\<lparr> visible := \<not> visible l \<rparr> else l) ls"

definition handleToggleVisibility :: "string \<Rightarrow> App \<Rightarrow> App" where
  "handleToggleVisibility i app =
     (case result (state app) of
        None \<Rightarrow> app
      | Some r \<Rightarrow>
          app\<lparr> state := (state app)\<lparr> result := Some (r\<lparr> layers := newLayers i (layers r) \<rparr>) \<rparr> \<rparr>)"

text \<open>
  The result as the object that the code built and holds in \<open>state.result\<close>: the keys
  in the order of the object literals of \<open>analyzeThumbnail\<close> (lines 105-155); the
  spread of \<open>handleToggleVisibility\<close> keeps keys and order. The members of the enum
  \<open>ElementType\<close> are the strings of types.ts.
\<close>

fun ElementType_string :: "ElementType \<Rightarrow> string" where
  "ElementType_string PERSON = ''PERSON''"
| "ElementType_string OBJECT = ''OBJECT''"
| "ElementType_string TEXT = ''TEXT''"
| "ElementType_string LOGO = ''LOGO''"
| "ElementType_string BACKGROUND = ''BACKGROUND''"
| "ElementType_string EFFECT = ''EFFECT''"

fun optional_property :: "string \<Rightarrow> string optional \<Rightarrow> (string \<times> js_value) list" where
  "optional_property k Absent = []"
| "optional_property k Undefined = [(k, JSUndefined)]"
| "optional_property k (Defined s) = [(k, JSString s)]"

definition box_object :: "BoundingBox \<Rightarrow> js_value" where
  "box_object b =
     JSObject [(''ymin'', JSNumber (ymin b)), (''xmin'', JSNumber (xmin b)),
               (''ymax'', JSNumber (ymax b)), (''xmax'', JSNumber (xmax b))]"

definition layer_object :: "LayerData \<Rightarrow> js_value" where
  "layer_object l =
     JSObject
       ([(''id'', JSString (layer_id l)),
         (''label'', JSString (label l)),
         (''type'', JSString (ElementType_string (layer_type l)))]
        @ optional_property ''subtype'' (subtype l)
        @ [(''confidence'', JSNumber (confidence l)),
           (''box'', box_object (box l)),
           (''zIndex'', JSNumber (of_int (zIndex l))),
           (''dominantColor'', JSString (dominantColor l)),
           (''visible'', JSBoolean (visible l))]
        @ optional_property ''maskUrl'' (maskUrl l))"

definition analysis_object :: "CompositionAnalysis \<Rightarrow> js_value" where
  "analysis_object a =
     JSObject
       [(''ruleOfThirdsScore'', JSNumber (ruleOfThirdsScore a)),
        (''visualBalanceScore'', JSNumber (visualBalanceScore a)),
        (''dominantColors'', JSArray (map JSString (dominantColors a))),
        (''brightnessMap'', JSString (brightnessMap a)),
        (''contrastLevel'', JSString (contrastLevel a)),
        (''suggestions'', JSArray (map JSString (suggestions a))),
        (''eyeContact'', JSBoolean (eyeContact a)),
        (''visualWeightCenter'',
           JSObject [(''x'', JSNumber (x_coord (visualWeightCenter a))),
                     (''y'', JSNumber (y_coord (visualWeightCenter a)))])]"

definition result_object :: "ProcessingResult \<Rightarrow> js_value" where
  "result_object r =
     JSObject [(''layers'', JSArray (map layer_object (layers r))),
               (''analysis'', analysis_object (analysis r))]"

text \<open>
  \<open>handleExportJSON\<close> (lines 65-74): nothing without a result; otherwise an anchor whose
  \<open>href\<close> is the media type followed by the percent-encoded text of
  \<open>JSON.stringify(state.result, null, 2)\<close>, saved under the name in \<open>download\<close>. The
  file that the browser saves holds the decoded text, so the anchor is modelled with the
  document itself (\<open>None\<close>: no JSON text, which \<open>JSON.stringify\<close> gives for
  \<open>undefined\<close> only). The state is not changed.
\<close>

record Anchor =
  href_media :: string
  href_document :: "json option"
  download :: string

definition handleExportJSON :: "App \<Rightarrow> Anchor option" where
  "handleExportJSON app =
     (case result (state app) of
        None \<Rightarrow> None
      | Some r \<Rightarrow>
          Some \<lparr> href_media = ''data:text/json;charset=utf-8,'',
                 href_document = JSON_stringify (result_object r),
                 download = ''thumbnail_data.json'' \<rparr>)"

text \<open>Re-parsing the exported document with \<open>JSON.parse\<close>.\<close>

definition reparse_export :: "App \<Rightarrow> js_value option" where
  "reparse_export app =
     (case handleExportJSON app of
        None \<Rightarrow> None
      | Some a \<Rightarrow> map_option JSON_parse_value (href_document a))"

text \<open>
  The result with every property that holds \<open>undefined\<close> left out: the same values
  are read from each field.
\<close>

fun omit_undefined :: "'a optional \<Rightarrow> 'a optional" where
  "omit_undefined Undefined = Absent"
| "omit_undefined Absent = Absent"
| "omit_undefined (Defined v) = Defined v"

definition without_undefined :: "ProcessingResult \<Rightarrow> ProcessingResult" where
  "without_undefined r =
     r\<lparr> layers := map (\<lambda>l. l\<lparr> subtype := omit_undefined (subtype l),
                                 maskUrl := omit_undefined (maskUrl l) \<rparr>) (layers r) \<rparr>"

text \<open>The \<open>onClick\<close> of "New Project" (line 88).\<close>

definition newProject :: "App \<Rightarrow> App" where
  "newProject app =
     app\<lparr> state := \<lparr> status = IDLE, imageSrc = None, result = None, error = None \<rparr> \<rparr>"

text \<open>The \<open>onClick\<close> of "Try Again" (line 117).\<close>

definition tryAgain :: "App \<Rightarrow> App" where
  "tryAgain app = app\<lparr> state := (state app)\<lparr> status := IDLE, error := None \<rparr> \<rparr>"

text \<open>
  The user's and the host's events. Each control exists only in the view that renders it:
  the drop zone while \<open>IDLE\<close>, "Try Again" while \<open>ERROR\<close>, "New Project" while
  \<open>SUCCESS\<close>, the editor (layer list, canvas, tabs) while \<open>SUCCESS\<close> with a result and
  an image; the pending analysis settles while \<open>ANALYZING\<close>. \<open>fire\<close> is \<open>None\<close> for an
  event that the current view cannot emit.
\<close>

datatype Event =
    ImageSelected string
  | ImageLoaded HTMLImageElement
  | AnalysisSettled Env
  | ToggleVisibility string
  | SelectLayer "string option"
  | SetActiveTab Tab
  | NewProject
  | TryAgain

definition editorShown :: "App \<Rightarrow> bool" where
  "editorShown app \<longleftrightarrow>
     status (state app) = SUCCESS \<and> result (state app) \<noteq> None \<and> imageSrc (state app) \<noteq> None"

fun fire :: "Event \<Rightarrow> App \<Rightarrow> App option" where
  "fire (ImageSelected base64) app =
     (if status (state app) = IDLE then Some (handleImageSelected_begin base64 app) else None)"
| "fire (ImageLoaded img) app =
     (if imageSrc (state app) \<noteq> None then Some (handleImageLoaded img app) else None)"
| "fire (AnalysisSettled env) app =
     (case imageSrc (state app) of
        None \<Rightarrow> None
      | Some base64 \<Rightarrow>
          (if status (state app) = ANALYZING
           then Some (handleImageSelected_settle (analyzeThumbnail env (split_comma_1 base64)) app)
           else None))"
| "fire (ToggleVisibility i) app =
     (if editorShown app \<and> activeTab app = LayersTab then Some (handleToggleVisibility i app) else None)"
| "fire (SelectLayer i) app =
     (if editorShown app then Some (app\<lparr> selectedLayerId := i \<rparr>) else None)"
| "fire (SetActiveTab t) app =
     (if editorShown app then Some (app\<lparr> activeTab := t \<rparr>) else None)"
| "fire NewProject app =
     (if status (state app) = SUCCESS then Some (newProject app) else None)"
| "fire TryAgain app =
     (if status (state app) = ERROR then Some (tryAgain app) else None)"

fun run :: "Event list \<Rightarrow> App \<Rightarrow> App option" where
  "run [] app = Some app"
| "run (e # es) app = (case fire e app of None \<Rightarrow> None | Some app' \<Rightarrow> run es app')"

section \<open>Concrete inputs\<close>

text \<open>A clock that reads the same millisecond in every call.\<close>

definition epoch :: "nat \<Rightarrow> nat" where
  "epoch i = 1700000000000"

definition sample_layer :: RawLayer where
  "sample_layer =
     \<lparr> raw_label = ''Player'', raw_type = PERSON, raw_subtype = None, raw_confidence = None,
       raw_ymin = 100, raw_xmin = 200, raw_ymax = 900, raw_xmax = 700, raw_zIndex = 5,
       raw_dominantColor = ''#ff0000'' \<rparr>"

definition sample_analysis :: RawAnalysis where
  "sample_analysis =
     \<lparr> raw_ruleOfThirdsScore = 70, raw_visualBalanceScore = 60, raw_dominantColors = [''#ff0000''],
       raw_brightnessMap = None, raw_contrastLevel = None, raw_suggestions = [],
       raw_eyeContact = True, raw_weightCenterX = None, raw_weightCenterY = None \<rparr>"

definition sample_response :: RawData where
  "sample_response = \<lparr> raw_layers = [sample_layer], raw_analysis = sample_analysis \<rparr>"

text \<open>A response whose only layer lies behind stacking order 0.\<close>

definition negative_layer :: RawLayer where
  "negative_layer = sample_layer\<lparr> raw_zIndex := - 1 \<rparr>"

definition negative_response :: RawData where
  "negative_response = \<lparr> raw_layers = [negative_layer], raw_analysis = sample_analysis \<rparr>"

text \<open>
  A response that gives a background layer the confidence 0, an empty brightness
  description, and puts the visual weight centre at the left edge (x = 0, y = 30).
\<close>

definition zero_layer :: RawLayer where
  "zero_layer = sample_layer\<lparr> raw_type := BACKGROUND, raw_confidence := Some 0 \<rparr>"

definition zero_analysis :: RawAnalysis where
  "zero_analysis =
     sample_analysis\<lparr> raw_brightnessMap := Some [], raw_contrastLevel := Some ''High'',
       raw_weightCenterX := Some 0, raw_weightCenterY := Some 30 \<rparr>"

definition zero_response :: RawData where
  "zero_response = \<lparr> raw_layers = [zero_layer], raw_analysis = zero_analysis \<rparr>"

definition sample_image :: HTMLImageElement where
  "sample_image = \<lparr> naturalWidth = 1280, naturalHeight = 720 \<rparr>"

text \<open>A host without a 2D context, whose drawing would raise if it were reached.\<close>

definition headless_document :: Document where
  "headless_document =
     \<lparr> getContext2d = False, toDataURL = (\<lambda>img c. Inl (Error ''InvalidStateError'')) \<rparr>"

text \<open>An uploaded image as the file reader hands it over: a data URL.\<close>

definition sample_data_url :: string where
  "sample_data_url = ''data:image/png;base64,iVBORw0KGgo=''"

text \<open>A configured host whose remote call is rejected by the transport.\<close>

definition offline_env :: Env where
  "offline_env =
     \<lparr> API_KEY = Some ''key'',
       generateContent = (\<lambda>d. Inl (Error ''Failed to fetch'')),
       JSON_parse = (\<lambda>t. Inl (Error ''Unexpected end of JSON input'')),
       Date_now = epoch \<rparr>"

text \<open>A configured host whose remote call answers with the sample response.\<close>

definition online_env :: Env where
  "online_env =
     \<lparr> API_KEY = Some ''key'',
       generateContent = (\<lambda>d. Inr (Some ''{}'')),
       JSON_parse = (\<lambda>t. Inr sample_response),
       Date_now = epoch \<rparr>"

text \<open>A response whose only layer is a background with a subtype, and the host that answers with it.\<close>

definition described_layer :: RawLayer where
  "described_layer = sample_layer\<lparr> raw_type := BACKGROUND, raw_subtype := Some ''Sky'' \<rparr>"

definition described_response :: RawData where
  "described_response = \<lparr> raw_layers = [described_layer], raw_analysis = sample_analysis \<rparr>"

definition described_env :: Env where
  "described_env = online_env\<lparr> JSON_parse := (\<lambda>t. Inr described_response) \<rparr>"

definition described_app :: App where
  "described_app =
     initialApp\<lparr> state := \<lparr> status = SUCCESS, imageSrc = Some sample_data_url,
       result = Some (normalizeResponse epoch described_response), error = None \<rparr> \<rparr>"

text \<open>The application after a successful analysis of the sample response.\<close>

definition loaded_app :: App where
  "loaded_app =
     initialApp\<lparr> state := \<lparr> status = SUCCESS, imageSrc = Some sample_data_url,
       result = Some (normalizeResponse epoch sample_response), error = None \<rparr> \<rparr>"

section \<open>The invariant of the session\<close>

text \<open>
  A result is held exactly in the \<open>SUCCESS\<close> state, and the layers of a held result
  have pairwise distinct ids.
\<close>

definition session_inv :: "App \<Rightarrow> bool" where
  "session_inv app =
     (case result (state app) of
        None \<Rightarrow> status (state app) \<noteq> SUCCESS
      | Some r \<Rightarrow> status (state app) = SUCCESS \<and> distinct (map layer_id (layers r)))"

section \<open>Properties of the stable sort\<close>

lemma mset_insert_sorted: "mset (insert_sorted cmp a bs) = add_mset a (mset bs)"
  by (induction bs) auto

lemma mset_Array_sort: "mset (Array_sort cmp xs) = mset xs"
  by (induction xs) (auto simp: mset_insert_sorted)

lemma set_Array_sort: "set (Array_sort cmp xs) = set xs"
  using mset_Array_sort [of cmp xs] by (metis set_mset_mset)

lemma length_Array_sort: "length (Array_sort cmp xs) = length xs"
  using mset_Array_sort [of cmp xs] by (metis size_mset)

lemma set_insert_sorted: "set (insert_sorted cmp a bs) = insert a (set bs)"
  using mset_insert_sorted [of cmp a bs] by (metis set_mset_add_mset_insert set_mset_mset)

lemma sorted_insert_byZIndex:
  "sorted (map zIndex bs) \<Longrightarrow> sorted (map zIndex (insert_sorted byZIndex a bs))"
proof (induction bs)
  case Nil
  show ?case by simp
next
  case (Cons b bs)
  show ?case
  proof (cases "byZIndex a b \<le> 0")
    case True
    then have "zIndex a \<le> zIndex b" by (simp add: byZIndex_def)
    with Cons.prems show ?thesis using True by auto
  next
    case False
    then have lt: "zIndex b < zIndex a" by (simp add: byZIndex_def)
    from Cons have "sorted (map zIndex (insert_sorted byZIndex a bs))" by simp
    moreover have "\<forall>l \<in> set (insert_sorted byZIndex a bs). zIndex b \<le> zIndex l"
      using Cons.prems lt by (auto simp: set_insert_sorted)
    ultimately show ?thesis using False by simp
  qed
qed

lemma sorted_Array_sort_byZIndex: "sorted (map zIndex (Array_sort byZIndex xs))"
  by (induction xs) (simp_all add: sorted_insert_byZIndex)

lemma filter_insert_byZIndex:
  "filter (\<lambda>l. zIndex l = k) (insert_sorted byZIndex a bs) = filter (\<lambda>l. zIndex l = k) (a # bs)"
  by (induction bs) (auto simp: byZIndex_def)

lemma filter_Array_sort_byZIndex:
  "filter (\<lambda>l. zIndex l = k) (Array_sort byZIndex xs) = filter (\<lambda>l. zIndex l = k) xs"
  by (induction xs) (simp_all add: filter_insert_byZIndex)

section \<open>Layer ids are pairwise distinct\<close>

lemma digit_char_mem: "d < 10 \<Longrightarrow> digit_char d \<in> set ''0123456789''"
  unfolding digit_char_def by (rule nth_mem) simp

lemma digit_char_inj: "a < 10 \<Longrightarrow> b < 10 \<Longrightarrow> digit_char a = digit_char b \<Longrightarrow> a = b"
proof -
  assume a: "a < 10" and b: "b < 10" and eq: "digit_char a = digit_char b"
  have d: "distinct ''0123456789''" by simp
  have "a < length ''0123456789''" "b < length ''0123456789''" using a b by simp_all
  with d eq show "a = b" unfolding digit_char_def by (simp only: nth_eq_iff_index_eq)
qed

lemma show_nat_not_Nil: "show_nat n \<noteq> []"
  by (subst show_nat.simps) simp

lemma show_nat_digits: "set (show_nat n) \<subseteq> set ''0123456789''"
proof (induction n rule: show_nat.induct)
  case (1 n)
  show ?case
  proof (cases "n < 10")
    case True
    then have "show_nat n = [digit_char n]" by (subst show_nat.simps) simp
    with digit_char_mem [OF True] show ?thesis by simp
  next
    case False
    then have "show_nat n = show_nat (n div 10) @ [digit_char (n mod 10)]"
      by (subst show_nat.simps) simp
    moreover have "digit_char (n mod 10) \<in> set ''0123456789''"
      by (rule digit_char_mem) simp
    moreover have "set (show_nat (n div 10)) \<subseteq> set ''0123456789''"
      using "1.IH" False by simp
    ultimately show ?thesis by simp
  qed
qed

lemma not_in_subset: "A \<subseteq> B \<Longrightarrow> c \<notin> B \<Longrightarrow> c \<notin> A"
  by blast

lemma show_nat_no_dash: "CHR ''-'' \<notin> set (show_nat n)"
proof -
  have "CHR ''-'' \<notin> set ''0123456789''" by simp
  with show_nat_digits [of n] show ?thesis by (rule not_in_subset)
qed

lemma show_nat_no_b: "CHR ''b'' \<notin> set (show_nat n)"
proof -
  have "CHR ''b'' \<notin> set ''0123456789''" by simp
  with show_nat_digits [of n] show ?thesis by (rule not_in_subset)
qed

lemma show_nat_inj: "show_nat m = show_nat n \<Longrightarrow> m = n"
proof (induction m arbitrary: n rule: show_nat.induct)
  case (1 m)
  have len: "\<And>k. \<not> k < 10 \<Longrightarrow> length (show_nat k) \<ge> 2"
  proof -
    fix k :: nat assume "\<not> k < 10"
    then have "show_nat k = show_nat (k div 10) @ [digit_char (k mod 10)]"
      by (subst show_nat.simps) simp
    moreover have "length (show_nat (k div 10)) \<ge> 1"
      using show_nat_not_Nil [of "k div 10"] by (cases "show_nat (k div 10)") auto
    ultimately show "length (show_nat k) \<ge> 2" by simp
  qed
  have one: "\<And>k. k < 10 \<Longrightarrow> show_nat k = [digit_char k]"
    by (subst show_nat.simps) simp
  have more: "\<And>k. \<not> k < 10 \<Longrightarrow> show_nat k = show_nat (k div 10) @ [digit_char (k mod 10)]"
    by (subst show_nat.simps) simp
  show ?case
  proof (cases "m < 10")
    case m: True
    show ?thesis
    proof (cases "n < 10")
      case True
      with m "1.prems" show ?thesis by (simp add: one digit_char_inj)
    next
      case False
      from len [OF False] one [OF m] "1.prems" show ?thesis by simp
    qed
  next
    case m: False
    show ?thesis
    proof (cases "n < 10")
      case True
      from len [OF m] one [OF True] "1.prems" show ?thesis by simp
    next
      case False
      have "show_nat (m div 10) @ [digit_char (m mod 10)] = show_nat (n div 10) @ [digit_char (n mod 10)]"
        using "1.prems" more [OF m] more [OF False] by simp
      then have a: "show_nat (m div 10) = show_nat (n div 10)"
        and b: "digit_char (m mod 10) = digit_char (n mod 10)" by simp_all
      from a "1.IH" m have "m div 10 = n div 10" by simp
      moreover from b have "m mod 10 = n mod 10" by (simp add: digit_char_inj)
      ultimately show ?thesis by (metis div_mult_mod_eq)
    qed
  qed
qed

lemma sep_split:
  assumes "d \<notin> set u" "d \<notin> set v" "u @ d # p = v @ d # q"
  shows "u = v"
proof -
  have "\<forall>c\<in>set u. c \<noteq> d" "\<forall>c\<in>set v. c \<noteq> d" using assms(1,2) by blast+
  then have "takeWhile (\<lambda>c. c \<noteq> d) (u @ d # p) = u" "takeWhile (\<lambda>c. c \<noteq> d) (v @ d # q) = v"
    by simp_all
  then show ?thesis using assms(3) by simp
qed

lemma toLayer_id_inj: "layer_id (toLayer s i a) = layer_id (toLayer t j b) \<Longrightarrow> i = j"
proof -
  assume "layer_id (toLayer s i a) = layer_id (toLayer t j b)"
  then have "show_nat i @ CHR ''-'' # show_nat s = show_nat j @ CHR ''-'' # show_nat t"
    by (simp add: toLayer_def)
  then have "show_nat i = show_nat j"
    by (rule sep_split [OF show_nat_no_dash show_nat_no_dash])
  then show "i = j" by (rule show_nat_inj)
qed

lemma toLayer_id_not_default: "layer_id (toLayer s i a) \<noteq> layer_id defaultBackground"
proof
  assume "layer_id (toLayer s i a) = layer_id defaultBackground"
  then have eq: "show_nat i @ CHR ''-'' # show_nat s = ''bg-default''"
    by (simp add: toLayer_def defaultBackground_def)
  obtain c cs where c: "show_nat i = c # cs"
    using show_nat_not_Nil [of i] by (cases "show_nat i") auto
  with eq have "c = CHR ''b''" by simp
  with c have "CHR ''b'' \<in> set (show_nat i)" by simp
  with show_nat_no_b show False by blast
qed

lemma distinct_mapLayers: "distinct (map layer_id (mapLayers clock raws))"
proof -
  have "inj_on (\<lambda>(index, layer). layer_id (toLayer (clock index) index layer)) (set (enumerate 0 raws))"
  proof (rule inj_onI)
    fix p q assume p: "p \<in> set (enumerate 0 raws)" and q: "q \<in> set (enumerate 0 raws)"
      and eq: "(case p of (index, layer) \<Rightarrow> layer_id (toLayer (clock index) index layer)) =
               (case q of (index, layer) \<Rightarrow> layer_id (toLayer (clock index) index layer))"
    obtain i a where pi: "p = (i, a)" by (cases p)
    obtain j b where qj: "q = (j, b)" by (cases q)
    from eq pi qj have "i = j" by (auto dest: toLayer_id_inj)
    moreover from p pi have "a = raws ! i" by (auto simp: in_set_enumerate_eq)
    moreover from q qj have "b = raws ! j" by (auto simp: in_set_enumerate_eq)
    ultimately show "p = q" using pi qj by simp
  qed
  moreover have "distinct (enumerate 0 raws)" by simp
  ultimately have "distinct (map (\<lambda>(index, layer). layer_id (toLayer (clock index) index layer)) (enumerate 0 raws))"
    by (simp add: distinct_map)
  moreover have "map layer_id (mapLayers clock raws) =
      map (\<lambda>(index, layer). layer_id (toLayer (clock index) index layer)) (enumerate 0 raws)"
    by (simp add: mapLayers_def split_def)
  ultimately show ?thesis by simp
qed

lemma default_id_not_mapped: "layer_id defaultBackground \<notin> layer_id ` set (mapLayers clock raws)"
  by (auto simp: mapLayers_def dest: toLayer_id_not_default [symmetric, THEN notE])

lemma distinct_unsortedLayers: "distinct (map layer_id (unsortedLayers clock raws))"
  using distinct_mapLayers [of clock raws] default_id_not_mapped [of clock raws]
  by (simp add: unsortedLayers_def Let_def)

section \<open>Properties of the normalization\<close>

lemma visible_unsortedLayers: "l \<in> set (unsortedLayers clock raws) \<Longrightarrow> visible l"
  by (auto simp: unsortedLayers_def Let_def mapLayers_def toLayer_def defaultBackground_def split: if_splits)

lemma layers_normalizeResponse:
  "layers (normalizeResponse clock rawData) = Array_sort byZIndex (unsortedLayers clock (raw_layers rawData))"
  by (simp add: normalizeResponse_def)

lemma layers_sample:
  "layers (normalizeResponse epoch sample_response) = [defaultBackground, toLayer 1700000000000 0 sample_layer]"
  by (simp add: normalizeResponse_def sample_response_def unsortedLayers_def mapLayers_def
      hasBackground_def toLayer_def sample_layer_def defaultBackground_def byZIndex_def epoch_def)

lemma map_type_mapLayers: "map layer_type (mapLayers clock raws) = map raw_type raws"
proof -
  have "map layer_type (mapLayers clock raws) = map (raw_type \<circ> snd) (enumerate 0 raws)"
    by (simp add: mapLayers_def toLayer_def split_def comp_def)
  also have "\<dots> = map raw_type (map snd (enumerate 0 raws))" by (simp only: map_map)
  finally show ?thesis by (simp only: map_snd_enumerate)
qed

lemma hasBackground_mapLayers:
  "hasBackground (mapLayers clock raws) \<longleftrightarrow> BACKGROUND \<in> set (map raw_type raws)"
proof -
  have "hasBackground (mapLayers clock raws) \<longleftrightarrow> BACKGROUND \<in> set (map layer_type (mapLayers clock raws))"
    by (force simp: hasBackground_def list_ex_iff)
  then show ?thesis by (simp only: map_type_mapLayers)
qed

lemma length_mapLayers: "length (mapLayers clock raws) = length raws"
  by (simp add: mapLayers_def)

lemma default_not_mapped: "defaultBackground \<notin> set (mapLayers clock raws)"
  using default_id_not_mapped [of clock raws] by blast

lemma insert_sorted_front: "\<forall>b \<in> set bs. cmp a b \<le> 0 \<Longrightarrow> insert_sorted cmp a bs = a # bs"
  by (cases bs) simp_all

lemma zIndex_mapLayers: "map zIndex (mapLayers clock raws) = map raw_zIndex raws"
proof -
  have "map zIndex (mapLayers clock raws) = map (raw_zIndex \<circ> snd) (enumerate 0 raws)"
    by (simp add: mapLayers_def toLayer_def split_def comp_def)
  also have "\<dots> = map raw_zIndex (map snd (enumerate 0 raws))" by (simp only: map_map)
  finally show ?thesis by (simp only: map_snd_enumerate)
qed

section \<open>Background synthesis\<close>

text \<open>
  Claim C1, as the code has it. For every remote response, the normalization in
  \<open>analyzeThumbnail\<close> synthesizes a background layer if and only if no returned layer has
  category background. When it does, the layer array before the sort is the synthesized
  layer followed by the mapped layers, the final sequence holds the synthesized layer
  exactly once and is one longer than the response, and the synthesized layer is first in
  the final sequence whenever no returned layer has a negative stacking order. When a
  background layer is present, nothing is added and the layer count is unchanged. The
  synthesized layer has the full-frame box (0,0,1,1), stacking order 0, confidence 0.5 and
  dominant color \<open>#000000\<close>.
\<close>

theorem C1_background_synthesis:
  "(defaultBackground \<in> set (layers (normalizeResponse clock rawData))
      \<longleftrightarrow> BACKGROUND \<notin> set (map raw_type (raw_layers rawData)))
   \<and> (BACKGROUND \<notin> set (map raw_type (raw_layers rawData)) \<longrightarrow>
        unsortedLayers clock (raw_layers rawData) = defaultBackground # mapLayers clock (raw_layers rawData)
        \<and> count_list (layers (normalizeResponse clock rawData)) defaultBackground = 1
        \<and> length (layers (normalizeResponse clock rawData)) = Suc (length (raw_layers rawData))
        \<and> ((\<forall>l \<in> set (raw_layers rawData). 0 \<le> raw_zIndex l) \<longrightarrow>
              hd (layers (normalizeResponse clock rawData)) = defaultBackground))
   \<and> (BACKGROUND \<in> set (map raw_type (raw_layers rawData)) \<longrightarrow>
        unsortedLayers clock (raw_layers rawData) = mapLayers clock (raw_layers rawData)
        \<and> length (layers (normalizeResponse clock rawData)) = length (raw_layers rawData))
   \<and> box defaultBackground = \<lparr> ymin = 0, xmin = 0, ymax = 1, xmax = 1 \<rparr>
   \<and> zIndex defaultBackground = 0
   \<and> confidence defaultBackground = 0.5
   \<and> dominantColor defaultBackground = ''#000000''"
proof -
  let ?raws = "raw_layers rawData"
  let ?fin = "layers (normalizeResponse clock rawData)"
  let ?pre = "unsortedLayers clock ?raws"
  let ?mapped = "mapLayers clock ?raws"
  have fin: "?fin = Array_sort byZIndex ?pre" by (rule layers_normalizeResponse)
  have pre_no: "BACKGROUND \<notin> set (map raw_type ?raws) \<Longrightarrow> ?pre = defaultBackground # ?mapped"
    by (simp add: unsortedLayers_def Let_def hasBackground_mapLayers)
  have pre_yes: "BACKGROUND \<in> set (map raw_type ?raws) \<Longrightarrow> ?pre = ?mapped"
    by (simp add: unsortedLayers_def Let_def hasBackground_mapLayers)
  have set_fin: "set ?fin = set ?pre" by (simp only: fin set_Array_sort)
  have length_fin: "length ?fin = length ?pre" by (simp only: fin length_Array_sort)
  have mset_fin: "mset ?fin = mset ?pre" by (simp only: fin mset_Array_sort)
  have iff: "defaultBackground \<in> set ?fin \<longleftrightarrow> BACKGROUND \<notin> set (map raw_type ?raws)"
  proof (cases "BACKGROUND \<in> set (map raw_type ?raws)")
    case True
    from pre_yes [OF True] have "set ?fin = set ?mapped" by (simp add: set_fin)
    with True default_not_mapped [of clock ?raws] show ?thesis by simp
  next
    case False
    from pre_no [OF False] have "set ?fin = insert defaultBackground (set ?mapped)"
      by (simp add: set_fin)
    with False show ?thesis by simp
  qed
  have cnt: "count_list ?fin defaultBackground = 1" if no: "BACKGROUND \<notin> set (map raw_type ?raws)"
  proof -
    have "count (mset ?fin) defaultBackground = count (mset ?pre) defaultBackground"
      by (simp only: mset_fin)
    also have "\<dots> = Suc (count (mset ?mapped) defaultBackground)"
      using pre_no [OF no] by simp
    also have "\<dots> = 1"
      using default_not_mapped [of clock ?raws] by (simp add: count_eq_zero_iff)
    finally show ?thesis by (simp add: count_mset)
  qed
  have len_no: "length ?fin = Suc (length ?raws)" if no: "BACKGROUND \<notin> set (map raw_type ?raws)"
    using pre_no [OF no] by (simp add: length_fin length_mapLayers)
  have len_yes: "length ?fin = length ?raws" if "BACKGROUND \<in> set (map raw_type ?raws)"
    using pre_yes [OF that] by (simp add: length_fin length_mapLayers)
  have first: "hd ?fin = defaultBackground"
    if no: "BACKGROUND \<notin> set (map raw_type ?raws)" and nonneg: "\<forall>l \<in> set ?raws. 0 \<le> raw_zIndex l"
  proof -
    have "\<forall>z \<in> set (map zIndex ?mapped). 0 \<le> z"
      using nonneg by (simp add: zIndex_mapLayers)
    then have "\<forall>b \<in> set (Array_sort byZIndex ?mapped). byZIndex defaultBackground b \<le> 0"
      by (simp add: set_Array_sort byZIndex_def defaultBackground_def)
    then have "insert_sorted byZIndex defaultBackground (Array_sort byZIndex ?mapped)
        = defaultBackground # Array_sort byZIndex ?mapped"
      by (rule insert_sorted_front)
    then show ?thesis using pre_no [OF no] by (simp add: fin)
  qed
  have fields: "box defaultBackground = \<lparr> ymin = 0, xmin = 0, ymax = 1, xmax = 1 \<rparr>
      \<and> zIndex defaultBackground = 0 \<and> confidence defaultBackground = 0.5
      \<and> dominantColor defaultBackground = ''#000000''"
    by (simp add: defaultBackground_def)
  from iff pre_no pre_yes cnt len_no len_yes first fields show ?thesis by blast
qed

text \<open>
  The claim as stated puts the synthesized layer first in the final sequence. A response
  whose only layer is a person with stacking order -1 has no background layer, and the
  sort moves that person in front of the synthesized layer.
\<close>

theorem C1_counterexample:
  "map raw_type (raw_layers negative_response) = [PERSON]
   \<and> map layer_id (layers (normalizeResponse epoch negative_response)) = [''layer-0-1700000000000'', ''layer-bg-default'']
   \<and> hd (layers (normalizeResponse epoch negative_response)) \<noteq> defaultBackground"
  by (simp add: normalizeResponse_def negative_response_def unsortedLayers_def mapLayers_def
      hasBackground_def toLayer_def negative_layer_def sample_layer_def defaultBackground_def
      byZIndex_def epoch_def show_nat.simps digit_char_def)

theorem C1_background_synthesis_witness:
  "BACKGROUND \<notin> set (map raw_type (raw_layers sample_response))
   \<and> map raw_zIndex (raw_layers sample_response) = [5]
   \<and> defaultBackground \<in> set (layers (normalizeResponse epoch sample_response))
   \<and> length (layers (normalizeResponse epoch sample_response)) = 2
   \<and> hd (layers (normalizeResponse epoch sample_response)) = defaultBackground"
proof -
  have a: "BACKGROUND \<notin> set (map raw_type (raw_layers sample_response))"
    by (simp add: sample_response_def sample_layer_def)
  have b: "\<forall>l \<in> set (raw_layers sample_response). 0 \<le> raw_zIndex l"
    by (simp add: sample_response_def sample_layer_def)
  have c: "length (raw_layers sample_response) = 1" by (simp add: sample_response_def)
  have d: "map raw_zIndex (raw_layers sample_response) = [5]"
    by (simp add: sample_response_def sample_layer_def)
  from a b c d C1_background_synthesis [of epoch sample_response] show ?thesis by simp
qed

section \<open>Defaults for missing fields\<close>

lemma defaults_for_missing:
  "confidence (toLayer now index layer) =
     (case raw_confidence layer of None \<Rightarrow> 0.9 | Some v \<Rightarrow> if v = 0 then 0.9 else v)"
  "brightnessMap (toAnalysis a) =
     (case raw_brightnessMap a of None \<Rightarrow> ''Balanced'' | Some v \<Rightarrow> if v = [] then ''Balanced'' else v)"
  "contrastLevel (toAnalysis a) =
     (case raw_contrastLevel a of None \<Rightarrow> ''Medium'' | Some v \<Rightarrow> if v = [] then ''Medium'' else v)"
  "x_coord (visualWeightCenter (toAnalysis a)) =
     (case raw_weightCenterX a of None \<Rightarrow> 50 | Some v \<Rightarrow> if v = 0 then 50 else v)"
  "y_coord (visualWeightCenter (toAnalysis a)) =
     (case raw_weightCenterY a of None \<Rightarrow> 50 | Some v \<Rightarrow> if v = 0 then 50 else v)"
  by (simp_all add: toLayer_def toAnalysis_def or_number_def or_string_def)

text \<open>
  Claim C2 says that a default is applied only when the response field is missing, and
  that a present value, including 0, is kept. The code writes each default with \<open>||\<close>,
  which also replaces a present 0 and a present empty string. At a response that gives
  its background layer the confidence 0 (the schema documents the range 0.0 to 1.0), an
  empty brightness description, and the weight centre (0, 30) (the schema documents 0-100),
  the result has confidence 0.9, brightness \<open>Balanced\<close> and the centre (50, 30); the
  present contrast level is kept.
\<close>

theorem C2_zero_and_empty_replaced:
  "raw_confidence zero_layer = Some 0
   \<and> map confidence (layers (normalizeResponse epoch zero_response)) = [9 / 10]
   \<and> raw_weightCenterX zero_analysis = Some 0
   \<and> raw_weightCenterY zero_analysis = Some 30
   \<and> visualWeightCenter (analysis (normalizeResponse epoch zero_response)) = \<lparr> x_coord = 50, y_coord = 30 \<rparr>
   \<and> raw_brightnessMap zero_analysis = Some []
   \<and> brightnessMap (analysis (normalizeResponse epoch zero_response)) = ''Balanced''
   \<and> contrastLevel (analysis (normalizeResponse epoch zero_response)) = ''High''"
  by (simp add: normalizeResponse_def zero_response_def unsortedLayers_def mapLayers_def
      hasBackground_def toLayer_def zero_layer_def sample_layer_def zero_analysis_def
      sample_analysis_def toAnalysis_def or_number_def or_string_def)

section \<open>Sorting by stacking order\<close>

text \<open>
  Claim C3. For every remote response, the final layer sequence produced by
  \<open>analyzeThumbnail\<close> is sorted ascending by stacking order; it is a rearrangement of the
  sequence before the sort, and the sort is stable: for every stacking order, the layers
  with that order appear in the same relative order as before the sort. In particular, a
  response whose layers have the stacking orders 3, 1, 2 yields them in the order 1, 2, 3
  (after the synthesized layer of order 0, when none of the three is a background).
\<close>

theorem C3_sorted_stable:
  "sorted (map zIndex (layers (normalizeResponse clock rawData)))
   \<and> mset (layers (normalizeResponse clock rawData)) = mset (unsortedLayers clock (raw_layers rawData))
   \<and> (\<forall>k. filter (\<lambda>l. zIndex l = k) (layers (normalizeResponse clock rawData))
           = filter (\<lambda>l. zIndex l = k) (unsortedLayers clock (raw_layers rawData)))
   \<and> map zIndex (layers (normalizeResponse clock
         \<lparr> raw_layers = [a\<lparr> raw_zIndex := 3 \<rparr>, b\<lparr> raw_zIndex := 1 \<rparr>, c\<lparr> raw_zIndex := 2 \<rparr>],
           raw_analysis = an \<rparr>))
       = (if BACKGROUND \<in> {raw_type a, raw_type b, raw_type c} then [1, 2, 3] else [0, 1, 2, 3])"
proof -
  have "map zIndex (Array_sort byZIndex (unsortedLayers clock
          [a\<lparr> raw_zIndex := 3 \<rparr>, b\<lparr> raw_zIndex := 1 \<rparr>, c\<lparr> raw_zIndex := 2 \<rparr>]))
       = (if BACKGROUND \<in> {raw_type a, raw_type b, raw_type c} then [1, 2, 3] else [0, 1, 2, 3])"
    by (simp add: unsortedLayers_def Let_def hasBackground_mapLayers)
       (simp add: mapLayers_def toLayer_def byZIndex_def defaultBackground_def)
  then show ?thesis
    by (simp add: layers_normalizeResponse sorted_Array_sort_byZIndex mset_Array_sort
        filter_Array_sort_byZIndex del: Array_sort.simps)
qed

section \<open>Visibility after normalization\<close>

text \<open>
  Claim C9. For every remote response, every layer in the result of
  \<open>analyzeThumbnail\<close>, the synthesized background layer included, has its visibility
  flag set to true.
\<close>

theorem C9_all_layers_visible:
  "\<forall>l \<in> set (layers (normalizeResponse clock rawData)). visible l"
  by (simp add: layers_normalizeResponse set_Array_sort visible_unsortedLayers)

theorem C9_all_layers_visible_witness:
  "defaultBackground \<in> set (layers (normalizeResponse epoch sample_response)) \<and> visible defaultBackground"
  using C9_all_layers_visible [of epoch sample_response] by (simp add: layers_sample)

section \<open>Rounding to the nearest double\<close>

lemma bit_length_bounds: "0 < n \<Longrightarrow> 2 ^ (bit_length n - 1) \<le> n \<and> n < 2 ^ bit_length n"
proof (induction n rule: bit_length.induct)
  case (1 n)
  show ?case
  proof (cases "n div 2 = 0")
    case True
    with "1.prems" have "n = 1" by (simp add: div_eq_0_iff)
    then show ?thesis by (simp add: bit_length.simps)
  next
    case False
    then have pos: "0 < n div 2" by simp
    from "1.prems" have n: "n \<noteq> 0" by simp
    from "1.IH" [OF n pos] have lo: "2 ^ (bit_length (n div 2) - 1) \<le> n div 2"
      and hi: "n div 2 < 2 ^ bit_length (n div 2)" by simp_all
    have bl: "bit_length n = Suc (bit_length (n div 2))"
      using n by (subst bit_length.simps) simp
    have blpos: "0 < bit_length (n div 2)"
      using pos by (subst bit_length.simps) simp
    then obtain k where k: "bit_length (n div 2) = Suc k" by (cases "bit_length (n div 2)") auto
    have d1: "2 * (n div 2) \<le> n" by simp
    have d2: "n < 2 * (n div 2) + 2" by presburger
    from lo k have "2 ^ k \<le> n div 2" by simp
    with d1 have "2 * 2 ^ k \<le> n" by linarith
    moreover from hi d2 have "n < 2 * 2 ^ bit_length (n div 2)" by linarith
    ultimately show ?thesis by (simp add: bl k)
  qed
qed

lemma bit_length_pos: "0 < n \<Longrightarrow> 0 < bit_length n"
  by (subst bit_length.simps) simp

lemma binade_bounds:
  assumes "0 < a"
  shows "2 powi binade a \<le> a \<and> a < 2 powi (binade a + 1)"
proof (cases "1 \<le> a")
  case True
  define n where "n = nat \<lfloor>a\<rfloor>"
  have npos: "0 < n" using True by (simp add: n_def)
  have na: "real n \<le> a" "a < real n + 1" using True by (simp_all add: n_def)
  from bit_length_bounds [OF npos] have lo: "2 ^ (bit_length n - 1) \<le> n" and hi: "n < 2 ^ bit_length n"
    by simp_all
  have b: "binade a = int (bit_length n) - 1" using True by (simp add: binade_def n_def)
  from bit_length_pos [OF npos] obtain k where k: "bit_length n = Suc k"
    by (cases "bit_length n") auto
  have e1: "(2::real) powi binade a = 2 ^ k" by (simp add: b k)
  have e2: "(2::real) powi (binade a + 1) = 2 ^ Suc k" by (simp add: b k power_int_add)
  from lo k have "(2::nat) ^ k \<le> n" by simp
  then have "real ((2::nat) ^ k) \<le> real n" by (rule of_nat_mono)
  then have "(2::real) ^ k \<le> real n" by simp
  moreover from hi k have "n + 1 \<le> (2::nat) ^ Suc k" by simp
  then have "real (n + 1) \<le> real ((2::nat) ^ Suc k)" by (rule of_nat_mono)
  then have "real n + 1 \<le> (2::real) ^ Suc k" by simp
  ultimately show ?thesis using na e1 e2 by linarith
next
  case False
  then have a1: "a < 1" by simp
  define y where "y = 1 / a"
  have y1: "1 < y" using assms a1 by (simp add: y_def)
  define m where "m = nat (\<lceil>y\<rceil> - 1)"
  have "2 \<le> \<lceil>y\<rceil>" using y1 by linarith
  then have mpos: "0 < m" by (simp add: m_def)
  have my: "real m < y" "y \<le> real m + 1" using y1 by (simp_all add: m_def) linarith+
  from bit_length_bounds [OF mpos] have lo: "2 ^ (bit_length m - 1) \<le> m" and hi: "m < 2 ^ bit_length m"
    by simp_all
  have b: "binade a = - int (bit_length m)" using False by (simp add: binade_def m_def y_def)
  from bit_length_pos [OF mpos] obtain k where k: "bit_length m = Suc k"
    by (cases "bit_length m") auto
  from lo k have "(2::nat) ^ k \<le> m" by simp
  then have "real ((2::nat) ^ k) \<le> real m" by (rule of_nat_mono)
  then have l: "(2::real) ^ k \<le> real m" by simp
  from hi k have "m + 1 \<le> (2::nat) ^ Suc k" by simp
  then have "real (m + 1) \<le> real ((2::nat) ^ Suc k)" by (rule of_nat_mono)
  then have h: "real m + 1 \<le> (2::real) ^ Suc k" by simp
  from l my have ylo: "(2::real) ^ k < y" by linarith
  from h my have yhi: "y \<le> (2::real) ^ Suc k" by linarith
  have ay: "a = 1 / y" using assms by (simp add: y_def)
  have inv: "(2::real) powi (- int j) = 1 / 2 ^ j" for j
  proof -
    have "(2::real) powi (- int j) = inverse (2 powi int j)" by (rule power_int_minus)
    then show ?thesis by (simp add: inverse_eq_divide)
  qed
  have "binade a = - int (Suc k)" by (simp add: b k)
  then have e1: "(2::real) powi binade a = 1 / 2 ^ Suc k" by (simp only: inv)
  have "binade a + 1 = - int k" by (simp add: b k)
  then have e2: "(2::real) powi (binade a + 1) = 1 / 2 ^ k" by (simp only: inv)
  have "1 / (2::real) ^ Suc k \<le> 1 / y"
    using yhi y1 by (intro divide_left_mono) simp_all
  moreover have "1 / y < 1 / (2::real) ^ k"
  proof -
    have "0 < (2::real) ^ k" by simp
    then show ?thesis using ylo by (simp add: frac_less2)
  qed
  ultimately show ?thesis using ay e1 e2 by simp
qed

lemma binade_mono:
  assumes "0 < a" "a \<le> b"
  shows "binade a \<le> binade b"
proof (rule ccontr)
  assume "\<not> binade a \<le> binade b"
  then have "binade b + 1 \<le> binade a" by simp
  then have "(2::real) powi (binade b + 1) \<le> 2 powi binade a"
    by (intro power_int_increasing) simp_all
  moreover from binade_bounds [OF assms(1)] have "2 powi binade a \<le> a" by simp
  moreover from assms have "0 < b" by simp
  from binade_bounds [OF this] have "b < 2 powi (binade b + 1)" by simp
  ultimately show False using assms(2) by linarith
qed

lemma binade_le:
  assumes "0 < a" "a \<le> 2 powi k"
  shows "binade a \<le> k"
proof (rule ccontr)
  assume "\<not> binade a \<le> k"
  then have "k + 1 \<le> binade a" by simp
  then have "(2::real) powi (k + 1) \<le> 2 powi binade a"
    by (intro power_int_increasing) simp_all
  moreover have "(2::real) powi k < 2 powi (k + 1)"
    by (intro power_int_strict_increasing) simp_all
  moreover from binade_bounds [OF assms(1)] have "2 powi binade a \<le> a" by simp
  ultimately show False using assms(2) by linarith
qed

lemma roundTiesToEven_cases:
  "roundTiesToEven a = \<lfloor>a\<rfloor> \<and> a - of_int \<lfloor>a\<rfloor> \<le> 1 / 2
   \<or> roundTiesToEven a = \<lfloor>a\<rfloor> + 1 \<and> 1 / 2 \<le> a - of_int \<lfloor>a\<rfloor>"
  by (simp add: roundTiesToEven_def Let_def)

lemma roundTiesToEven_near: "\<bar>of_int (roundTiesToEven a) - a\<bar> \<le> 1 / 2"
proof -
  have f: "of_int \<lfloor>a\<rfloor> \<le> a" "a < of_int \<lfloor>a\<rfloor> + 1" by linarith+
  from roundTiesToEven_cases [of a] show ?thesis
  proof
    assume "roundTiesToEven a = \<lfloor>a\<rfloor> \<and> a - of_int \<lfloor>a\<rfloor> \<le> 1 / 2"
    with f show ?thesis by simp
  next
    assume "roundTiesToEven a = \<lfloor>a\<rfloor> + 1 \<and> 1 / 2 \<le> a - of_int \<lfloor>a\<rfloor>"
    with f show ?thesis by simp
  qed
qed

lemma roundTiesToEven_of_int: "roundTiesToEven (of_int n) = n"
  by (simp add: roundTiesToEven_def)

lemma roundTiesToEven_mono:
  assumes "a \<le> b"
  shows "roundTiesToEven a \<le> roundTiesToEven b"
proof (cases "\<lfloor>a\<rfloor> = \<lfloor>b\<rfloor>")
  case True
  define n where "n = \<lfloor>b\<rfloor>"
  have "a - of_int n \<le> b - of_int n" using assms by simp
  then show ?thesis
    unfolding roundTiesToEven_def Let_def True n_def [symmetric] by simp
next
  case False
  with assms have lt: "\<lfloor>a\<rfloor> < \<lfloor>b\<rfloor>" using floor_mono [OF assms] by linarith
  have "roundTiesToEven a \<le> \<lfloor>a\<rfloor> + 1" using roundTiesToEven_cases [of a] by linarith
  moreover have "\<lfloor>b\<rfloor> \<le> roundTiesToEven b" using roundTiesToEven_cases [of b] by linarith
  ultimately show ?thesis using lt by linarith
qed

lemma pow2_split:
  "(2::real) powi e = 2 ^ 52 * 2 powi (e - 52)"
  "(2::real) powi (e + 1) = 2 ^ 53 * 2 powi (e - 52)"
  "(2::real) powi (e - 52) = 2 * 2 powi (e - 53)"
proof -
  have "(2::real) powi (52 + (e - 52)) = 2 powi 52 * 2 powi (e - 52)" by (rule power_int_add) simp
  moreover have "52 + (e - 52) = e" by simp
  ultimately show "(2::real) powi e = 2 ^ 52 * 2 powi (e - 52)" by simp
  have "(2::real) powi (53 + (e - 52)) = 2 powi 53 * 2 powi (e - 52)" by (rule power_int_add) simp
  moreover have "53 + (e - 52) = e + 1" by simp
  ultimately show "(2::real) powi (e + 1) = 2 ^ 53 * 2 powi (e - 52)" by simp
  have "(2::real) powi (1 + (e - 53)) = 2 powi 1 * 2 powi (e - 53)" by (rule power_int_add) simp
  moreover have "1 + (e - 53) = e - 52" by simp
  ultimately show "(2::real) powi (e - 52) = 2 * 2 powi (e - 53)" by simp
qed

lemma power_int_pos2: "0 < (2::real) powi k"
  by (simp add: zero_less_power_int)

lemma double_round_nonneg: "0 \<le> a \<Longrightarrow> 0 \<le> double_round a"
proof -
  assume a: "0 \<le> a"
  have "0 \<le> roundTiesToEven (a / 2 powi k)" for k
  proof -
    have "0 \<le> a / 2 powi k" using a power_int_pos2 [of k] by simp
    from roundTiesToEven_mono [OF this] show ?thesis by (simp add: roundTiesToEven_def)
  qed
  then show ?thesis
    by (simp add: double_round_def Let_def)
qed

lemma double_round_error:
  assumes "0 \<le> a" "a \<le> 2 powi k" "- 1022 \<le> k"
  shows "\<bar>double_round a - a\<bar> \<le> 2 powi (k - 53)"
proof (cases "a = 0")
  case True
  then show ?thesis using power_int_pos2 [of "k - 53"] by (simp add: double_round_def)
next
  case False
  with assms have pos: "0 < a" by simp
  define e where "e = max (binade a) (- 1022)"
  define u :: real where "u = 2 powi (e - 52)"
  have upos: "0 < u" by (simp add: u_def)
  have "e \<le> k" using binade_le [OF pos assms(2)] assms(3) by (simp add: e_def)
  then have "u \<le> 2 powi (k - 52)" unfolding u_def by (intro power_int_increasing) simp_all
  moreover have "(2::real) powi (k - 52) = 2 * 2 powi (k - 53)" by (rule pow2_split(3))
  ultimately have half: "u / 2 \<le> 2 powi (k - 53)" by simp
  have dr: "double_round a = of_int (roundTiesToEven (a / u)) * u"
    using pos by (simp add: double_round_def Let_def u_def e_def)
  have "\<bar>double_round a - a\<bar> = \<bar>of_int (roundTiesToEven (a / u)) - a / u\<bar> * u"
  proof -
    have "double_round a - a = (of_int (roundTiesToEven (a / u)) - a / u) * u"
      using upos by (simp add: dr algebra_simps)
    then show ?thesis using upos by (simp add: abs_mult)
  qed
  also have "\<dots> \<le> 1 / 2 * u"
    using roundTiesToEven_near [of "a / u"] upos by (intro mult_right_mono) simp_all
  finally show ?thesis using half by simp
qed

lemma binade_unique:
  assumes "0 < a" "2 powi e \<le> a" "a < 2 powi (e + 1)"
  shows "binade a = e"
proof (rule antisym)
  show "binade a \<le> e"
  proof (rule ccontr)
    assume "\<not> binade a \<le> e"
    then have "e + 1 \<le> binade a" by simp
    then have "(2::real) powi (e + 1) \<le> 2 powi binade a"
      by (intro power_int_increasing) simp_all
    with binade_bounds [OF assms(1)] assms(3) show False by linarith
  qed
  show "e \<le> binade a"
  proof (rule ccontr)
    assume "\<not> e \<le> binade a"
    then have "binade a + 1 \<le> e" by simp
    then have "(2::real) powi (binade a + 1) \<le> 2 powi e"
      by (intro power_int_increasing) simp_all
    with binade_bounds [OF assms(1)] assms(2) show False by linarith
  qed
qed

lemma double_round_mono:
  assumes "0 \<le> a" "a \<le> b"
  shows "double_round a \<le> double_round b"
proof (cases "a = 0")
  case True
  from assms have "0 \<le> b" by simp
  from double_round_nonneg [OF this] True show ?thesis by (simp add: double_round_def)
next
  case False
  with assms have apos: "0 < a" and bpos: "0 < b" by simp_all
  define ea where "ea = max (binade a) (- 1022)"
  define eb where "eb = max (binade b) (- 1022)"
  define ua :: real where "ua = 2 powi (ea - 52)"
  define ub :: real where "ub = 2 powi (eb - 52)"
  have uapos: "0 < ua" and ubpos: "0 < ub" by (simp_all add: ua_def ub_def)
  have dra: "double_round a = of_int (roundTiesToEven (a / ua)) * ua"
    using apos by (simp add: double_round_def Let_def ua_def ea_def)
  have drb: "double_round b = of_int (roundTiesToEven (b / ub)) * ub"
    using bpos by (simp add: double_round_def Let_def ub_def eb_def)
  have le: "ea \<le> eb" using binade_mono [OF apos assms(2)] by (simp add: ea_def eb_def)
  show ?thesis
  proof (cases "ea = eb")
    case True
    then have "ua = ub" by (simp add: ua_def ub_def)
    moreover have "a / ub \<le> b / ub" using assms(2) ubpos by (simp add: divide_right_mono)
    from roundTiesToEven_mono [OF this]
    have "(of_int (roundTiesToEven (a / ub)) :: real) \<le> of_int (roundTiesToEven (b / ub))" by simp
    ultimately show ?thesis using ubpos by (simp add: dra drb mult_right_mono)
  next
    case False
    with le have lt: "ea < eb" by simp
    then have ebn: "eb = binade b" by (auto simp: eb_def ea_def)
    define p :: real where "p = 2 powi (ea + 1)"
    define q :: real where "q = 2 powi eb"
    have pq: "p \<le> q"
      unfolding p_def q_def using lt by (intro power_int_increasing) simp_all
    have pa: "p = of_int (2 ^ 53) * ua"
      unfolding p_def ua_def using pow2_split(2) [of ea] by simp
    have qb: "q = of_int (2 ^ 52) * ub"
      unfolding q_def ub_def using pow2_split(1) [of eb] by simp
    have "a < p"
    proof -
      from binade_bounds [OF apos] have "a < 2 powi (binade a + 1)" by simp
      moreover have "(2::real) powi (binade a + 1) \<le> 2 powi (ea + 1)"
        by (intro power_int_increasing) (simp_all add: ea_def)
      ultimately show ?thesis unfolding p_def by linarith
    qed
    then have "a \<le> of_int (2 ^ 53) * ua" by (simp only: pa)
    then have "a / ua \<le> of_int (2 ^ 53)" using uapos by (simp only: pos_divide_le_eq)
    from roundTiesToEven_mono [OF this] have "roundTiesToEven (a / ua) \<le> 2 ^ 53"
      by (simp only: roundTiesToEven_of_int)
    then have "(of_int (roundTiesToEven (a / ua)) :: real) \<le> of_int (2 ^ 53)"
      by (simp only: of_int_le_iff)
    then have "of_int (roundTiesToEven (a / ua)) * ua \<le> of_int (2 ^ 53) * ua"
      using uapos by (intro mult_right_mono) simp_all
    then have ra: "double_round a \<le> p" by (simp only: dra pa)
    have "q \<le> b" using binade_bounds [OF bpos] by (simp add: ebn q_def)
    then have "of_int (2 ^ 52) * ub \<le> b" by (simp only: qb)
    then have "of_int (2 ^ 52) \<le> b / ub" using ubpos by (simp only: pos_le_divide_eq)
    from roundTiesToEven_mono [OF this] have "2 ^ 52 \<le> roundTiesToEven (b / ub)"
      by (simp only: roundTiesToEven_of_int)
    then have "(of_int (2 ^ 52) :: real) \<le> of_int (roundTiesToEven (b / ub))"
      by (simp only: of_int_le_iff)
    then have "of_int (2 ^ 52) * ub \<le> of_int (roundTiesToEven (b / ub)) * ub"
      using ubpos by (intro mult_right_mono) simp_all
    then have rb: "q \<le> double_round b" by (simp only: drb qb)
    from ra pq rb show ?thesis by linarith
  qed
qed

lemma double_round_idem:
  assumes "0 \<le> a"
  shows "double_round (double_round a) = double_round a"
proof (cases "a = 0")
  case True
  then show ?thesis by (simp add: double_round_def)
next
  case False
  with assms have apos: "0 < a" by simp
  define e where "e = max (binade a) (- 1022)"
  define u :: real where "u = 2 powi (e - 52)"
  define n where "n = roundTiesToEven (a / u)"
  define r where "r = double_round a"
  have upos: "0 < u" by (simp add: u_def)
  have r: "r = of_int n * u"
    using apos by (simp add: r_def double_round_def Let_def u_def e_def n_def)
  have top: "(2::real) powi (e + 1) = of_int (2 ^ 53) * u"
    unfolding u_def using pow2_split(2) [of e] by simp
  have bot: "(2::real) powi e = of_int (2 ^ 52) * u"
    unfolding u_def using pow2_split(1) [of e] by simp
  have "a < 2 powi (e + 1)"
  proof -
    from binade_bounds [OF apos] have "a < 2 powi (binade a + 1)" by simp
    moreover have "(2::real) powi (binade a + 1) \<le> 2 powi (e + 1)"
      by (intro power_int_increasing) (simp_all add: e_def)
    ultimately show ?thesis by linarith
  qed
  then have "a \<le> of_int (2 ^ 53) * u" by (simp only: top)
  then have "a / u \<le> of_int (2 ^ 53)" using upos by (simp only: pos_divide_le_eq)
  from roundTiesToEven_mono [OF this] have n_hi: "n \<le> 2 ^ 53"
    by (simp only: roundTiesToEven_of_int n_def)
  have "of_int 0 \<le> a / u" using apos upos by simp
  from roundTiesToEven_mono [OF this] have n_lo: "0 \<le> n"
    by (simp only: roundTiesToEven_of_int n_def)
  have same: "double_round r = r" if er: "max (binade r) (- 1022) = e" and rpos: "0 < r"
  proof -
    have "r / u = of_int n" using upos by (simp add: r)
    then have "roundTiesToEven (r / u) = n" by (simp only: roundTiesToEven_of_int)
    then show ?thesis using rpos er by (simp add: double_round_def Let_def u_def r)
  qed
  have "double_round r = r"
  proof (cases "n = 0")
    case True
    then show ?thesis by (simp add: r double_round_def)
  next
    case nz: False
    with n_lo have npos: "0 < n" by simp
    then have rpos: "0 < r" using upos by (simp add: r)
    show ?thesis
    proof (cases "n = 2 ^ 53")
      case True
      then have r_top: "r = 2 powi (e + 1)" by (simp only: r top)
      have "(2::real) powi (e + 1) < 2 powi (e + 1 + 1)"
        by (intro power_int_strict_increasing) simp_all
      with r_top have b: "binade r = e + 1"
        using rpos by (intro binade_unique) simp_all
      have "- 1022 \<le> e" by (simp add: e_def)
      with b have e': "max (binade r) (- 1022) = e + 1" by simp
      have "(2::real) powi (e + 1) = of_int (2 ^ 52) * 2 powi (e + 1 - 52)"
        using pow2_split(1) [of "e + 1"] by simp
      then have "r / 2 powi (e + 1 - 52) = of_int (2 ^ 52)"
        by (simp add: r_top)
      then have "roundTiesToEven (r / 2 powi (e + 1 - 52)) = 2 ^ 52"
        by (simp only: roundTiesToEven_of_int)
      then have "double_round r = of_int (2 ^ 52) * 2 powi (e + 1 - 52)"
        using rpos e' by (simp add: double_round_def Let_def)
      also have "\<dots> = r" using pow2_split(1) [of "e + 1"] by (simp add: r_top)
      finally show ?thesis .
    next
      case False
      with n_hi have "n + 1 \<le> 2 ^ 53" by simp
      then have "(of_int (n + 1) :: real) \<le> of_int (2 ^ 53)" by (simp only: of_int_le_iff)
      then have "(of_int n :: real) < of_int (2 ^ 53)" by simp
      then have "of_int n * u < of_int (2 ^ 53) * u" using upos by (simp only: mult_less_cancel_right_pos)
      then have r_lt: "r < 2 powi (e + 1)" by (simp only: r top)
      have le_e: "binade r \<le> e"
      proof (rule ccontr)
        assume "\<not> binade r \<le> e"
        then have "e + 1 \<le> binade r" by simp
        then have "(2::real) powi (e + 1) \<le> 2 powi binade r"
          by (intro power_int_increasing) simp_all
        with binade_bounds [OF rpos] r_lt show False by linarith
      qed
      show ?thesis
      proof (cases "- 1022 \<le> binade a")
        case True
        then have ea: "e = binade a" by (simp add: e_def)
        from binade_bounds [OF apos] have "2 powi e \<le> a" by (simp add: ea)
        then have "of_int (2 ^ 52) * u \<le> a" by (simp only: bot)
        then have "of_int (2 ^ 52) \<le> a / u" using upos by (simp only: pos_le_divide_eq)
        from roundTiesToEven_mono [OF this] have "2 ^ 52 \<le> n"
          by (simp only: roundTiesToEven_of_int n_def)
        then have "(of_int (2 ^ 52) :: real) \<le> of_int n" by (simp only: of_int_le_iff)
        then have "of_int (2 ^ 52) * u \<le> of_int n * u" using upos by (intro mult_right_mono) simp_all
        then have "2 powi e \<le> r" by (simp only: r bot)
        with r_lt rpos have "binade r = e" by (intro binade_unique)
        with True ea have "max (binade r) (- 1022) = e" by simp
        from same [OF this rpos] show ?thesis .
      next
        case False
        then have "e = - 1022" by (simp add: e_def)
        with le_e have "max (binade r) (- 1022) = e" by simp
        from same [OF this rpos] show ?thesis .
      qed
    qed
  qed
  then show ?thesis by (simp only: r_def)
qed

section \<open>From the 0-1000 box to the source rectangle\<close>

lemma pow2_neg: "(2::real) powi (- int j) = 1 / 2 ^ j"
proof -
  have "(2::real) powi (- int j) = inverse (2 powi int j)" by (rule power_int_minus)
  then show ?thesis by (simp add: inverse_eq_divide)
qed

lemma double_round_zero: "double_round 0 = 0"
  by (simp add: double_round_def)

lemma double_round_one: "double_round 1 = 1"
  by (simp add: double_round_def binade_def bit_length.simps roundTiesToEven_def Let_def)

lemma double_round_unit:
  assumes "0 \<le> v" "v \<le> 1"
  shows "0 \<le> double_round v" "double_round v \<le> 1" "\<bar>double_round v - v\<bar> \<le> 1 / 2 ^ 53"
proof -
  show "0 \<le> double_round v" using assms(1) by (rule double_round_nonneg)
  from double_round_mono [OF assms] show "double_round v \<le> 1" by (simp only: double_round_one)
  have "v \<le> 2 powi 0" using assms(2) by simp
  from double_round_error [OF assms(1) this] have "\<bar>double_round v - v\<bar> \<le> 2 powi (- int 53)" by simp
  then show "\<bar>double_round v - v\<bar> \<le> 1 / 2 ^ 53" by (simp only: pow2_neg)
qed

lemma double_round_pixels:
  assumes "0 \<le> d" "d \<le> 1" "n < 2 ^ 32"
  shows "0 \<le> double_round (d * real n)" "\<bar>double_round (d * real n) - d * real n\<bar> \<le> 1 / 2 ^ 21"
proof -
  have n: "real n \<le> 2 ^ 32"
  proof -
    have "real n \<le> real (2 ^ 32)" using assms(3) by (intro of_nat_mono) simp
    then show ?thesis by simp
  qed
  have nonneg: "0 \<le> d * real n" using assms(1) by simp
  then show "0 \<le> double_round (d * real n)" by (rule double_round_nonneg)
  have "d * real n \<le> 1 * 2 ^ 32" using assms(1,2) n by (intro mult_mono) simp_all
  then have "d * real n \<le> 2 powi 32" by simp
  from double_round_error [OF nonneg this]
  have "\<bar>double_round (d * real n) - d * real n\<bar> \<le> 2 powi (- int 21)" by simp
  then show "\<bar>double_round (d * real n) - d * real n\<bar> \<le> 1 / 2 ^ 21" by (simp only: pow2_neg)
qed

lemma abs_diff_scale: "\<bar>p * real n - q * real n\<bar> = \<bar>p - q\<bar> * real n"
proof -
  have "p * real n - q * real n = (p - q) * real n" by (simp only: left_diff_distrib)
  then show ?thesis by (simp only: abs_mult abs_of_nat)
qed

lemma abs_triangle_le:
  fixes p q r :: real
  assumes "\<bar>p - q\<bar> \<le> e1" "\<bar>q - r\<bar> \<le> e2" "e1 + e2 \<le> e"
  shows "\<bar>p - r\<bar> \<le> e"
  using assms by linarith

lemma crop_axis:
  fixes lo hi :: real and n :: nat
  assumes "0 \<le> lo" "lo \<le> hi" "hi \<le> 1000" "n < 2 ^ 32"
  defines "a \<equiv> double_div lo 1000" and "b \<equiv> double_div hi 1000"
  shows "double_sub (double_mul a (real n)) 0 = double_mul a (real n)"
    and "double_add (double_mul (double_sub b a) (real n)) (double_mul 0 2)
           = double_mul (double_sub b a) (real n)"
    and "0 \<le> double_mul (double_sub b a) (real n)"
    and "\<bar>double_mul a (real n) - lo / 1000 * real n\<bar> \<le> 1 / 2 ^ 20"
    and "\<bar>double_mul (double_sub b a) (real n) - (hi - lo) / 1000 * real n\<bar> \<le> 1 / 2 ^ 19"
proof -
  have n: "real n \<le> 2 ^ 32"
  proof -
    have "real n \<le> real (2 ^ 32)" using assms(4) by (intro of_nat_mono) simp
    then show ?thesis by simp
  qed
  have lo: "0 \<le> lo / 1000" "lo / 1000 \<le> 1" using assms(1,2,3) by simp_all
  have hi: "0 \<le> hi / 1000" "hi / 1000 \<le> 1" using assms(1,2,3) by simp_all
  have a: "0 \<le> a" "a \<le> 1" "\<bar>a - lo / 1000\<bar> \<le> 1 / 2 ^ 53"
    unfolding a_def double_div_def using double_round_unit [OF lo] by simp_all
  have b: "0 \<le> b" "b \<le> 1" "\<bar>b - hi / 1000\<bar> \<le> 1 / 2 ^ 53"
    unfolding b_def double_div_def using double_round_unit [OF hi] by simp_all
  have ab: "a \<le> b"
    unfolding a_def b_def double_div_def using lo(1) assms(2) by (intro double_round_mono) simp_all
  define d where "d = double_sub b a"
  have diff: "0 \<le> b - a" "b - a \<le> 1" using a b ab by simp_all
  have d: "0 \<le> d" "d \<le> 1" "\<bar>d - (b - a)\<bar> \<le> 1 / 2 ^ 53"
    unfolding d_def double_sub_def using double_round_unit [OF diff] by simp_all
  have an: "0 \<le> a * real n" using a(1) by simp
  show "double_sub (double_mul a (real n)) 0 = double_mul a (real n)"
    using double_round_idem [OF an] by (simp add: double_sub_def double_mul_def)
  have dn: "0 \<le> d * real n" using d(1) by simp
  show "double_add (double_mul (double_sub b a) (real n)) (double_mul 0 2)
          = double_mul (double_sub b a) (real n)"
    using double_round_idem [OF dn]
    by (simp add: double_add_def double_mul_def double_round_zero d_def)
  show "0 \<le> double_mul (double_sub b a) (real n)"
    using double_round_pixels(1) [OF d(1,2) assms(4)] by (simp add: double_mul_def d_def)
  have pa: "\<bar>double_mul a (real n) - a * real n\<bar> \<le> 1 / 2 ^ 21"
    using double_round_pixels(2) [OF a(1,2) assms(4)] by (simp add: double_mul_def)
  have "\<bar>a * real n - lo / 1000 * real n\<bar> = \<bar>a - lo / 1000\<bar> * real n"
    by (rule abs_diff_scale)
  also have "\<dots> \<le> 1 / 2 ^ 53 * 2 ^ 32"
    using a(3) n by (intro mult_mono) simp_all
  finally have ea: "\<bar>a * real n - lo / 1000 * real n\<bar> \<le> 1 / 2 ^ 21" by simp
  from pa ea show "\<bar>double_mul a (real n) - lo / 1000 * real n\<bar> \<le> 1 / 2 ^ 20"
    by (rule abs_triangle_le) simp
  have pd: "\<bar>double_mul d (real n) - d * real n\<bar> \<le> 1 / 2 ^ 21"
    using double_round_pixels(2) [OF d(1,2) assms(4)] by (simp add: double_mul_def)
  have "\<bar>b - a - (hi / 1000 - lo / 1000)\<bar> \<le> 2 / 2 ^ 53"
    using a(3) b(3) by linarith
  with d(3) have "\<bar>d - (hi / 1000 - lo / 1000)\<bar> \<le> 3 / 2 ^ 53"
    by (rule abs_triangle_le) simp
  then have "\<bar>d - (hi - lo) / 1000\<bar> \<le> 3 / 2 ^ 53"
    by (simp only: diff_divide_distrib)
  moreover have "\<bar>d * real n - (hi - lo) / 1000 * real n\<bar> = \<bar>d - (hi - lo) / 1000\<bar> * real n"
    by (rule abs_diff_scale)
  ultimately have "\<bar>d * real n - (hi - lo) / 1000 * real n\<bar> \<le> 3 / 2 ^ 53 * 2 ^ 32"
    using n by (simp only: ) (intro mult_mono, simp_all)
  then have ed: "\<bar>d * real n - (hi - lo) / 1000 * real n\<bar> \<le> 3 / 2 ^ 21" by simp
  from pd ed have "\<bar>double_mul d (real n) - (hi - lo) / 1000 * real n\<bar> \<le> 1 / 2 ^ 19"
    by (rule abs_triangle_le) simp
  then show "\<bar>double_mul (double_sub b a) (real n) - (hi - lo) / 1000 * real n\<bar> \<le> 1 / 2 ^ 19"
    by (simp only: d_def)
qed

lemma sample_rect:
  "cropLayer_drawImage sample_image (box (toLayer 0 0 sample_layer)) =
     \<lparr> sx = 256, sy = 72, sw = 5629499534213119 / 8796093022208, sh = 576,
       dx = 0, dy = 0, dw = 5629499534213119 / 8796093022208, dh = 576 \<rparr>"
  by (simp add: cropLayer_drawImage_def Let_def toLayer_def sample_layer_def sample_image_def
      double_add_def double_sub_def double_mul_def double_div_def
      double_round_def binade_def bit_length.simps roundTiesToEven_def)

text \<open>
  Claim C4, as the code has it. For every bounding box with 0 \<le> xmin \<le> xmax \<le> 1000 and
  0 \<le> ymin \<le> ymax \<le> 1000 and every image whose pixel dimensions (W, H) are below 2^32
  (\<open>naturalWidth\<close> and \<open>naturalHeight\<close> are unsigned 32-bit attributes),
  the rescale of \<open>analyzeThumbnail\<close> (divide by 1000) followed by the pixel conversion of
  \<open>cropLayer\<close> gives, in the double arithmetic of the code, the source rectangle
  x = (xmin/1000) * W, y = (ymin/1000) * H, width = (xmax/1000 - xmin/1000) * W and
  height = (ymax/1000 - ymin/1000) * H, each operation rounded to the nearest double.
  Width and height are at least 0. x and y are within 2^-20 of the exact products, and
  width and height are within 2^-19 of (xmax - xmin)/1000 * W and (ymax - ymin)/1000 * H,
  which they need not equal. Nothing is clamped to the image.
\<close>

theorem C4_rescale_then_crop:
  assumes "0 \<le> raw_xmin layer" "raw_xmin layer \<le> raw_xmax layer" "raw_xmax layer \<le> 1000"
    and "0 \<le> raw_ymin layer" "raw_ymin layer \<le> raw_ymax layer" "raw_ymax layer \<le> 1000"
    and "naturalWidth img < 2 ^ 32" "naturalHeight img < 2 ^ 32"
  shows
    "cropLayer (doc\<lparr> getContext2d := True \<rparr>) img (box (toLayer now index layer))
       = toDataURL doc img
           \<lparr> canvas_width = dw (cropLayer_drawImage img (box (toLayer now index layer))),
             canvas_height = dh (cropLayer_drawImage img (box (toLayer now index layer))),
             drawn = cropLayer_drawImage img (box (toLayer now index layer)) \<rparr>
     \<and> sx (cropLayer_drawImage img (box (toLayer now index layer)))
       = double_mul (double_div (raw_xmin layer) 1000) (real (naturalWidth img))
     \<and> sy (cropLayer_drawImage img (box (toLayer now index layer)))
       = double_mul (double_div (raw_ymin layer) 1000) (real (naturalHeight img))
     \<and> sw (cropLayer_drawImage img (box (toLayer now index layer)))
       = double_mul (double_sub (double_div (raw_xmax layer) 1000) (double_div (raw_xmin layer) 1000))
           (real (naturalWidth img))
     \<and> sh (cropLayer_drawImage img (box (toLayer now index layer)))
       = double_mul (double_sub (double_div (raw_ymax layer) 1000) (double_div (raw_ymin layer) 1000))
           (real (naturalHeight img))
     \<and> 0 \<le> sw (cropLayer_drawImage img (box (toLayer now index layer)))
     \<and> 0 \<le> sh (cropLayer_drawImage img (box (toLayer now index layer)))
     \<and> \<bar>sx (cropLayer_drawImage img (box (toLayer now index layer)))
          - raw_xmin layer / 1000 * real (naturalWidth img)\<bar> \<le> 1 / 2 ^ 20
     \<and> \<bar>sy (cropLayer_drawImage img (box (toLayer now index layer)))
          - raw_ymin layer / 1000 * real (naturalHeight img)\<bar> \<le> 1 / 2 ^ 20
     \<and> \<bar>sw (cropLayer_drawImage img (box (toLayer now index layer)))
          - (raw_xmax layer - raw_xmin layer) / 1000 * real (naturalWidth img)\<bar> \<le> 1 / 2 ^ 19
     \<and> \<bar>sh (cropLayer_drawImage img (box (toLayer now index layer)))
          - (raw_ymax layer - raw_ymin layer) / 1000 * real (naturalHeight img)\<bar> \<le> 1 / 2 ^ 19"
proof -
  note xs = crop_axis [OF assms(1,2,3,7)]
  note ys = crop_axis [OF assms(4,5,6,8)]
  have x: "sx (cropLayer_drawImage img (box (toLayer now index layer)))
       = double_mul (double_div (raw_xmin layer) 1000) (real (naturalWidth img))"
    by (simp add: cropLayer_drawImage_def Let_def toLayer_def xs(1))
  have y: "sy (cropLayer_drawImage img (box (toLayer now index layer)))
       = double_mul (double_div (raw_ymin layer) 1000) (real (naturalHeight img))"
    by (simp add: cropLayer_drawImage_def Let_def toLayer_def ys(1))
  have w: "sw (cropLayer_drawImage img (box (toLayer now index layer)))
       = double_mul (double_sub (double_div (raw_xmax layer) 1000) (double_div (raw_xmin layer) 1000))
           (real (naturalWidth img))"
    by (simp add: cropLayer_drawImage_def Let_def toLayer_def xs(2))
  have h: "sh (cropLayer_drawImage img (box (toLayer now index layer)))
       = double_mul (double_sub (double_div (raw_ymax layer) 1000) (double_div (raw_ymin layer) 1000))
           (real (naturalHeight img))"
    by (simp add: cropLayer_drawImage_def Let_def toLayer_def ys(2))
  have c: "cropLayer (doc\<lparr> getContext2d := True \<rparr>) img (box (toLayer now index layer))
       = toDataURL doc img
           \<lparr> canvas_width = dw (cropLayer_drawImage img (box (toLayer now index layer))),
             canvas_height = dh (cropLayer_drawImage img (box (toLayer now index layer))),
             drawn = cropLayer_drawImage img (box (toLayer now index layer)) \<rparr>"
    by (simp add: cropLayer_def Let_def)
  have rest: "0 \<le> sw (cropLayer_drawImage img (box (toLayer now index layer)))
     \<and> 0 \<le> sh (cropLayer_drawImage img (box (toLayer now index layer)))
     \<and> \<bar>sx (cropLayer_drawImage img (box (toLayer now index layer)))
          - raw_xmin layer / 1000 * real (naturalWidth img)\<bar> \<le> 1 / 2 ^ 20
     \<and> \<bar>sy (cropLayer_drawImage img (box (toLayer now index layer)))
          - raw_ymin layer / 1000 * real (naturalHeight img)\<bar> \<le> 1 / 2 ^ 20
     \<and> \<bar>sw (cropLayer_drawImage img (box (toLayer now index layer)))
          - (raw_xmax layer - raw_xmin layer) / 1000 * real (naturalWidth img)\<bar> \<le> 1 / 2 ^ 19
     \<and> \<bar>sh (cropLayer_drawImage img (box (toLayer now index layer)))
          - (raw_ymax layer - raw_ymin layer) / 1000 * real (naturalHeight img)\<bar> \<le> 1 / 2 ^ 19"
    using xs(3,4,5) ys(3,4,5) by (simp only: x y w h)
  from c x y w h rest show ?thesis by blast
qed

theorem C4_rescale_then_crop_witness:
  "0 \<le> raw_xmin sample_layer \<and> raw_xmin sample_layer \<le> raw_xmax sample_layer \<and> raw_xmax sample_layer \<le> 1000
   \<and> 0 \<le> raw_ymin sample_layer \<and> raw_ymin sample_layer \<le> raw_ymax sample_layer \<and> raw_ymax sample_layer \<le> 1000
   \<and> naturalWidth sample_image < 2 ^ 32 \<and> naturalHeight sample_image < 2 ^ 32
   \<and> sx (cropLayer_drawImage sample_image (box (toLayer 0 0 sample_layer))) = 256
   \<and> sy (cropLayer_drawImage sample_image (box (toLayer 0 0 sample_layer))) = 72
   \<and> sw (cropLayer_drawImage sample_image (box (toLayer 0 0 sample_layer))) = 5629499534213119 / 8796093022208
   \<and> sh (cropLayer_drawImage sample_image (box (toLayer 0 0 sample_layer))) = 576
   \<and> 0 \<le> sw (cropLayer_drawImage sample_image (box (toLayer 0 0 sample_layer)))
   \<and> 0 \<le> sh (cropLayer_drawImage sample_image (box (toLayer 0 0 sample_layer)))
   \<and> \<bar>sw (cropLayer_drawImage sample_image (box (toLayer 0 0 sample_layer))) - 640\<bar> \<le> 1 / 2 ^ 19"
proof -
  have b: "0 \<le> raw_xmin sample_layer" "raw_xmin sample_layer \<le> raw_xmax sample_layer"
    "raw_xmax sample_layer \<le> 1000" "0 \<le> raw_ymin sample_layer"
    "raw_ymin sample_layer \<le> raw_ymax sample_layer" "raw_ymax sample_layer \<le> 1000"
    by (simp_all add: sample_layer_def)
  have d: "naturalWidth sample_image < 2 ^ 32" "naturalHeight sample_image < 2 ^ 32"
    by (simp_all add: sample_image_def)
  have e: "(raw_xmax sample_layer - raw_xmin sample_layer) / 1000 * real (naturalWidth sample_image) = 640"
    by (simp add: sample_layer_def sample_image_def)
  from C4_rescale_then_crop [OF b d, of headless_document 0 0] b d e show ?thesis
    by (simp add: sample_rect)
qed

text \<open>
  The claim as stated gives the width as (xmax - xmin)/1000 * W. For xmin = 200,
  xmax = 700 and W = 1280 that is 640, computed exactly or in doubles; the code computes
  (0.7 - 0.2) * 1280 in doubles, which is 640 - 2^-43 (printed 639.9999999999999).
\<close>

theorem C4_counterexample:
  "raw_xmin sample_layer = 200
   \<and> raw_xmax sample_layer = 700
   \<and> naturalWidth sample_image = 1280
   \<and> (raw_xmax sample_layer - raw_xmin sample_layer) / 1000 * real (naturalWidth sample_image) = 640
   \<and> double_mul (double_div (double_sub (raw_xmax sample_layer) (raw_xmin sample_layer)) 1000)
        (real (naturalWidth sample_image)) = 640
   \<and> sw (cropLayer_drawImage sample_image (box (toLayer 0 0 sample_layer)))
        = 5629499534213119 / 8796093022208
   \<and> sw (cropLayer_drawImage sample_image (box (toLayer 0 0 sample_layer))) \<noteq> 640"
  by (simp add: sample_rect)
     (simp add: sample_layer_def sample_image_def double_sub_def double_mul_def double_div_def
        double_round_def binade_def bit_length.simps roundTiesToEven_def Let_def)

section \<open>Cropping without a drawing context\<close>

text \<open>
  Claim C5. For every source image and bounding box, if the 2D drawing context cannot be
  acquired, \<open>cropLayer\<close> returns the empty string and raises nothing, whatever the host's
  drawing would have done.
\<close>

theorem C5_no_context_empty_result:
  "\<not> getContext2d doc \<Longrightarrow> cropLayer doc imageElement b = Inr []"
  by (simp add: cropLayer_def)

theorem C5_no_context_empty_result_witness:
  "\<not> getContext2d headless_document
   \<and> cropLayer headless_document sample_image (box defaultBackground) = Inr []"
proof -
  have "\<not> getContext2d headless_document" by (simp add: headless_document_def)
  then show ?thesis using C5_no_context_empty_result by simp
qed

section \<open>Toggling twice\<close>

text \<open>
  Claim C10. Toggling visibility is an involution: for every layer list and every id,
  toggling twice with the same id gives the original list back (and so the original
  application state), and toggling once with an id that no layer has leaves every layer
  unchanged.
\<close>

theorem C10_toggle_involution:
  "newLayers i (newLayers i ls) = ls
   \<and> handleToggleVisibility i (handleToggleVisibility i app) = app
   \<and> (i \<notin> set (map layer_id ls) \<longrightarrow> newLayers i ls = ls)"
proof -
  have twice: "newLayers i (newLayers i ls) = ls" for ls
    by (induction ls) (auto simp: newLayers_def)
  have absent: "newLayers i ls = ls" if "i \<notin> set (map layer_id ls)"
    using that by (induction ls) (auto simp: newLayers_def)
  have "handleToggleVisibility i (handleToggleVisibility i app) = app"
    by (cases "result (state app)") (simp_all add: handleToggleVisibility_def twice)
  with twice absent show ?thesis by simp
qed

theorem C10_toggle_involution_witness:
  "''layer-none'' \<notin> set (map layer_id [defaultBackground])
   \<and> newLayers ''layer-none'' [defaultBackground] = [defaultBackground]
   \<and> newLayers ''layer-bg-default'' (newLayers ''layer-bg-default'' [defaultBackground]) = [defaultBackground]"
proof -
  have "''layer-none'' \<notin> set (map layer_id [defaultBackground])"
    by (simp add: defaultBackground_def)
  then show ?thesis
    using C10_toggle_involution [of "''layer-none''" "[defaultBackground]"]
      C10_toggle_involution [of "''layer-bg-default''" "[defaultBackground]"]
    by simp
qed

section \<open>Every reachable state satisfies the session invariant\<close>

lemma distinct_normalizeResponse: "distinct (map layer_id (layers (normalizeResponse clock rawData)))"
proof -
  have "mset (layers (normalizeResponse clock rawData)) = mset (unsortedLayers clock (raw_layers rawData))"
    by (simp only: layers_normalizeResponse mset_Array_sort)
  then have "mset (map layer_id (layers (normalizeResponse clock rawData)))
      = mset (map layer_id (unsortedLayers clock (raw_layers rawData)))"
    by (metis mset_map)
  then have "distinct (map layer_id (layers (normalizeResponse clock rawData)))
      \<longleftrightarrow> distinct (map layer_id (unsortedLayers clock (raw_layers rawData)))"
    by (rule mset_eq_imp_distinct_iff)
  then show ?thesis
    using distinct_unsortedLayers [of clock "raw_layers rawData"] by simp
qed

lemma analyzeThumbnail_Inr:
  "analyzeThumbnail env d = Inr r \<Longrightarrow> \<exists>rawData. r = normalizeResponse (Date_now env) rawData"
  unfolding analyzeThumbnail_def
  by (simp split: if_splits sum.splits option.splits) blast

lemma ids_newLayers: "map layer_id (newLayers i ls) = map layer_id ls"
  by (induction ls) (simp_all add: newLayers_def)

lemma session_inv_initial: "session_inv initialApp"
  by (simp add: session_inv_def initialApp_def)

lemma session_inv_settle:
  assumes "session_inv app" "status (state app) = ANALYZING"
  shows "session_inv (handleImageSelected_settle (analyzeThumbnail env d) app)"
proof (cases "analyzeThumbnail env d")
  case (Inl e)
  obtain message where "e = Error message" by (cases e)
  with Inl assms show ?thesis
    by (simp add: handleImageSelected_settle_def session_inv_def split: option.splits)
next
  case (Inr r)
  then obtain rawData where "r = normalizeResponse (Date_now env) rawData"
    using analyzeThumbnail_Inr by blast
  with Inr show ?thesis
    by (simp add: handleImageSelected_settle_def session_inv_def distinct_normalizeResponse)
qed

lemma session_inv_fire:
  assumes "session_inv app" "fire e app = Some app'"
  shows "session_inv app'"
proof (cases e)
  case (ImageSelected base64)
  with assms show ?thesis
    by (auto simp: session_inv_def handleImageSelected_begin_def split: if_splits option.splits)
next
  case (ImageLoaded img)
  with assms show ?thesis
    by (auto simp: session_inv_def handleImageLoaded_def split: if_splits option.splits)
next
  case (AnalysisSettled env)
  with assms show ?thesis
    by (auto simp: session_inv_settle split: if_splits option.splits)
next
  case (ToggleVisibility i)
  with assms show ?thesis
    by (auto simp: session_inv_def handleToggleVisibility_def ids_newLayers
        split: if_splits option.splits)
next
  case (SelectLayer i)
  with assms show ?thesis
    by (auto simp: session_inv_def split: if_splits option.splits)
next
  case (SetActiveTab t)
  with assms show ?thesis
    by (auto simp: session_inv_def split: if_splits option.splits)
next
  case NewProject
  with assms show ?thesis
    by (auto simp: session_inv_def newProject_def split: if_splits option.splits)
next
  case TryAgain
  with assms show ?thesis
    by (auto simp: session_inv_def tryAgain_def split: if_splits option.splits)
qed

lemma session_inv_run: "session_inv app \<Longrightarrow> run es app = Some app' \<Longrightarrow> session_inv app'"
proof (induction es arbitrary: app)
  case Nil
  then show ?case by simp
next
  case (Cons e es)
  from Cons.prems(2) obtain app1 where f: "fire e app = Some app1" and r: "run es app1 = Some app'"
    by (auto split: option.splits)
  from session_inv_fire [OF Cons.prems(1) f] r show ?case by (rule Cons.IH)
qed

lemma session_inv_reachable: "run es initialApp = Some app \<Longrightarrow> session_inv app"
  using session_inv_initial by (rule session_inv_run)

lemma newLayers_update:
  assumes "distinct (map layer_id ls)" "k < length ls" "layer_id (ls ! k) = i"
  shows "newLayers i ls = ls[k := (ls ! k)\<lparr> visible := \<not> visible (ls ! k) \<rparr>]"
proof (rule nth_equalityI)
  show "length (newLayers i ls) = length (ls[k := (ls ! k)\<lparr> visible := \<not> visible (ls ! k) \<rparr>])"
    by (simp add: newLayers_def)
next
  fix j assume "j < length (newLayers i ls)"
  then have j: "j < length ls" by (simp add: newLayers_def)
  show "newLayers i ls ! j = ls[k := (ls ! k)\<lparr> visible := \<not> visible (ls ! k) \<rparr>] ! j"
  proof (cases "j = k")
    case True
    with assms j show ?thesis by (simp add: newLayers_def)
  next
    case False
    have "(map layer_id ls ! j = map layer_id ls ! k) = (j = k)"
      using assms(1,2) j by (intro nth_eq_iff_index_eq) simp_all
    then have "layer_id (ls ! j) \<noteq> i" using assms(2,3) j False by simp
    with j False show ?thesis by (simp add: newLayers_def)
  qed
qed

lemma split_sample_data_url: "split_comma_1 sample_data_url = Some ''iVBORw0KGgo=''"
  by (simp add: split_comma_1_def sample_data_url_def)

lemma run_loaded: "run [ImageSelected sample_data_url, AnalysisSettled online_env] initialApp = Some loaded_app"
  by (simp add: initialApp_def loaded_app_def handleImageSelected_begin_def
      handleImageSelected_settle_def analyzeThumbnail_def online_env_def)

section \<open>Toggling the visibility of one layer\<close>

text \<open>
  Claim C7. In every \<open>SUCCESS\<close> state that the application can reach, whose result
  contains a layer with the given id, \<open>handleToggleVisibility\<close> flips the visibility flag
  of exactly one layer, the one with that id, and leaves everything else unchanged: the
  order and length of the layer sequence, every other field of the toggled layer, every
  other layer, the composition analysis, and the rest of the application state.
\<close>

theorem C7_toggle_flips_one:
  assumes "run events initialApp = Some app"
    and "status (state app) = SUCCESS"
    and "result (state app) = Some r"
    and "i \<in> set (map layer_id (layers r))"
  shows "\<exists>k<length (layers r). layer_id (layers r ! k) = i \<and>
           handleToggleVisibility i app =
             app\<lparr> state := (state app)\<lparr> result :=
               Some (r\<lparr> layers := (layers r)[k := (layers r ! k)\<lparr> visible := \<not> visible (layers r ! k) \<rparr>] \<rparr>) \<rparr> \<rparr>"
proof -
  from session_inv_reachable [OF assms(1)] assms(3)
  have d: "distinct (map layer_id (layers r))" by (simp add: session_inv_def)
  from assms(4) obtain k where k: "k < length (layers r)" and ki: "layer_id (layers r ! k) = i"
    by (auto simp: in_set_conv_nth)
  have "handleToggleVisibility i app =
      app\<lparr> state := (state app)\<lparr> result := Some (r\<lparr> layers := newLayers i (layers r) \<rparr>) \<rparr> \<rparr>"
    using assms(3) by (simp add: handleToggleVisibility_def)
  with newLayers_update [OF d k ki] k ki show ?thesis by auto
qed

theorem C7_toggle_flips_one_witness:
  "run [ImageSelected sample_data_url, AnalysisSettled online_env] initialApp = Some loaded_app
   \<and> status (state loaded_app) = SUCCESS
   \<and> result (state loaded_app) = Some (normalizeResponse epoch sample_response)
   \<and> ''layer-bg-default'' \<in> set (map layer_id (layers (normalizeResponse epoch sample_response)))
   \<and> (\<exists>k<length (layers (normalizeResponse epoch sample_response)).
         layer_id (layers (normalizeResponse epoch sample_response) ! k) = ''layer-bg-default'' \<and>
         handleToggleVisibility ''layer-bg-default'' loaded_app =
           loaded_app\<lparr> state := (state loaded_app)\<lparr> result :=
             Some ((normalizeResponse epoch sample_response)\<lparr> layers :=
               (layers (normalizeResponse epoch sample_response))
                 [k := (layers (normalizeResponse epoch sample_response) ! k)
                    \<lparr> visible := \<not> visible (layers (normalizeResponse epoch sample_response) ! k) \<rparr>] \<rparr>) \<rparr> \<rparr>)"
proof -
  have s: "status (state loaded_app) = SUCCESS" by (simp add: loaded_app_def)
  have r: "result (state loaded_app) = Some (normalizeResponse epoch sample_response)"
    by (simp add: loaded_app_def)
  have i: "''layer-bg-default'' \<in> set (map layer_id (layers (normalizeResponse epoch sample_response)))"
    by (simp add: layers_sample defaultBackground_def)
  from C7_toggle_flips_one [OF run_loaded s r i] run_loaded s r i show ?thesis by blast
qed

section \<open>Back to the idle state\<close>

text \<open>
  Claim C6 says that every transition back to the \<open>IDLE\<close> state clears the session:
  retry clears image and result, reset discards image, result and layer selection. The
  code does less. After a rejected analysis, "Try Again" leaves the submitted image in
  \<open>imageSrc\<close>, which the sibling handler "New Project" does clear. After a successful
  analysis in which the image has loaded and the user has selected the background layer,
  "New Project" leaves that layer id selected and the loaded image in place; the next
  analysis that synthesizes a background layer then opens with that layer selected.
\<close>

theorem C6_session_not_cleared:
  "run [ImageSelected sample_data_url, AnalysisSettled offline_env, TryAgain] initialApp
     = Some (initialApp\<lparr> state := \<lparr> status = IDLE, imageSrc = Some sample_data_url,
         result = None, error = None \<rparr> \<rparr>)
   \<and> run [ImageSelected sample_data_url, ImageLoaded sample_image, AnalysisSettled online_env,
          SelectLayer (Some ''layer-bg-default''), NewProject] initialApp
     = Some (initialApp\<lparr> selectedLayerId := Some ''layer-bg-default'',
         originalImage := Some sample_image \<rparr>)
   \<and> run [ImageSelected sample_data_url, ImageLoaded sample_image, AnalysisSettled online_env,
          SelectLayer (Some ''layer-bg-default''), NewProject,
          ImageSelected sample_data_url, AnalysisSettled online_env] initialApp
     = Some (loaded_app\<lparr> selectedLayerId := Some ''layer-bg-default'',
         originalImage := Some sample_image \<rparr>)
   \<and> ''layer-bg-default'' \<in> set (map layer_id (layers (normalizeResponse epoch sample_response)))"
  by (simp add: initialApp_def loaded_app_def handleImageSelected_begin_def
      handleImageSelected_settle_def handleImageLoaded_def analyzeThumbnail_def offline_env_def
      online_env_def tryAgain_def newProject_def editorShown_def layers_sample
      defaultBackground_def)

section \<open>Exporting and re-parsing the result\<close>

lemma roundtrip_strings:
  "JSON_parse_elements (SerializeJSONArray (map JSString xs)) = map JSString xs"
  by (induction xs) simp_all

lemma roundtrip_optional:
  "JSON_parse_members (SerializeJSONObject (optional_property k p)) = optional_property k (omit_undefined p)"
  by (cases p) simp_all

lemma roundtrip_layer:
  "map_option JSON_parse_value (SerializeJSONProperty (layer_object l))
     = Some (layer_object (l\<lparr> subtype := omit_undefined (subtype l), maskUrl := omit_undefined (maskUrl l) \<rparr>))"
  by (cases "subtype l"; cases "maskUrl l") (simp_all add: layer_object_def box_object_def)

lemma roundtrip_layers:
  "JSON_parse_elements (SerializeJSONArray (map layer_object ls))
     = map layer_object (map (\<lambda>l. l\<lparr> subtype := omit_undefined (subtype l),
                                          maskUrl := omit_undefined (maskUrl l) \<rparr>) ls)"
proof (induction ls)
  case Nil
  show ?case by simp
next
  case (Cons l ls)
  from roundtrip_layer [of l] obtain j where j: "SerializeJSONProperty (layer_object l) = Some j"
    and p: "JSON_parse_value j = layer_object (l\<lparr> subtype := omit_undefined (subtype l),
        maskUrl := omit_undefined (maskUrl l) \<rparr>)"
    by (cases "SerializeJSONProperty (layer_object l)") simp_all
  with Cons.IH show ?case by simp
qed

lemma roundtrip_analysis:
  "map_option JSON_parse_value (SerializeJSONProperty (analysis_object a)) = Some (analysis_object a)"
  by (simp add: analysis_object_def roundtrip_strings)

lemma roundtrip_result:
  "map_option JSON_parse_value (JSON_stringify (result_object r)) = Some (result_object (without_undefined r))"
proof -
  from roundtrip_analysis [of "analysis r"] obtain j where
    j: "SerializeJSONProperty (analysis_object (analysis r)) = Some j"
    and p: "JSON_parse_value j = analysis_object (analysis r)"
    by (cases "SerializeJSONProperty (analysis_object (analysis r))") simp_all
  then show ?thesis
    by (simp add: JSON_stringify_def result_object_def without_undefined_def roundtrip_layers)
qed

lemma omit_undefined_id: "p \<noteq> Undefined \<Longrightarrow> omit_undefined p = p"
  by (cases p) simp_all

lemma without_undefined_id:
  assumes "Undefined \<notin> set (map subtype (layers r))" "Undefined \<notin> set (map maskUrl (layers r))"
  shows "without_undefined r = r"
proof -
  have "map (\<lambda>l. l\<lparr> subtype := omit_undefined (subtype l), maskUrl := omit_undefined (maskUrl l) \<rparr>) (layers r)
      = layers r"
  proof (rule map_idI)
    fix l assume "l \<in> set (layers r)"
    with assms have "subtype l \<noteq> Undefined" "maskUrl l \<noteq> Undefined" by force+
    then show "l\<lparr> subtype := omit_undefined (subtype l), maskUrl := omit_undefined (maskUrl l) \<rparr> = l"
      by (simp add: omit_undefined_id)
  qed
  then show ?thesis by (simp add: without_undefined_def)
qed

lemma get_property_layer:
  "get_property (layer_object (l\<lparr> subtype := omit_undefined (subtype l),
       maskUrl := omit_undefined (maskUrl l) \<rparr>)) k = get_property (layer_object l) k"
  by (cases "subtype l"; cases "maskUrl l") (simp_all add: layer_object_def)

lemma run_described:
  "run [ImageSelected sample_data_url, AnalysisSettled described_env] initialApp = Some described_app"
  by (simp add: initialApp_def described_app_def handleImageSelected_begin_def
      handleImageSelected_settle_def analyzeThumbnail_def described_env_def online_env_def)

lemma layers_described:
  "layers (normalizeResponse epoch described_response) = [toLayer 1700000000000 0 described_layer]"
  by (simp add: normalizeResponse_def described_response_def unsortedLayers_def mapLayers_def
      hasBackground_def toLayer_def described_layer_def sample_layer_def epoch_def)

text \<open>
  Claim C8, as the code has it. For every result held in memory, serializing it with the
  JSON export (\<open>handleExportJSON\<close>) and re-parsing the exported document yields the
  object of the in-memory result without the properties that hold \<open>undefined\<close> (the
  \<open>subtype\<close> of a layer for which the response gave none): the composition analysis and
  the number and order of the layers are the same, and every property of every layer
  reads the same value. When no layer holds an \<open>undefined\<close> property, the re-parsed
  object is structurally equal to the in-memory result, field for field.
\<close>

theorem C8_export_reparse:
  assumes "result (state app) = Some r"
  shows "reparse_export app = Some (result_object (without_undefined r))
       \<and> analysis (without_undefined r) = analysis r
       \<and> length (layers (without_undefined r)) = length (layers r)
       \<and> (\<forall>i k. i < length (layers r) \<longrightarrow>
             get_property (layer_object (layers (without_undefined r) ! i)) k
               = get_property (layer_object (layers r ! i)) k)
       \<and> (Undefined \<notin> set (map subtype (layers r)) \<and> Undefined \<notin> set (map maskUrl (layers r))
            \<longrightarrow> reparse_export app = Some (result_object r))"
proof -
  have a: "reparse_export app = Some (result_object (without_undefined r))"
    using assms by (simp add: reparse_export_def handleExportJSON_def roundtrip_result)
  have b: "get_property (layer_object (layers (without_undefined r) ! i)) k
      = get_property (layer_object (layers r ! i)) k" if "i < length (layers r)" for i k
    using that by (simp add: without_undefined_def get_property_layer)
  have c: "reparse_export app = Some (result_object r)"
    if "Undefined \<notin> set (map subtype (layers r))" "Undefined \<notin> set (map maskUrl (layers r))"
    using a without_undefined_id [OF that] by simp
  have d: "analysis (without_undefined r) = analysis r"
    "length (layers (without_undefined r)) = length (layers r)"
    by (simp_all add: without_undefined_def)
  from a b c d show ?thesis by blast
qed

theorem C8_export_reparse_witness:
  "run [ImageSelected sample_data_url, AnalysisSettled described_env] initialApp = Some described_app
   \<and> result (state described_app) = Some (normalizeResponse epoch described_response)
   \<and> map subtype (layers (normalizeResponse epoch described_response)) = [Defined ''Sky'']
   \<and> Undefined \<notin> set (map subtype (layers (normalizeResponse epoch described_response)))
   \<and> Undefined \<notin> set (map maskUrl (layers (normalizeResponse epoch described_response)))
   \<and> reparse_export described_app = Some (result_object (normalizeResponse epoch described_response))"
proof -
  have r: "result (state described_app) = Some (normalizeResponse epoch described_response)"
    by (simp add: described_app_def)
  have s: "map subtype (layers (normalizeResponse epoch described_response)) = [Defined ''Sky'']"
    by (simp add: layers_described toLayer_def described_layer_def)
  have m: "Undefined \<notin> set (map maskUrl (layers (normalizeResponse epoch described_response)))"
    by (simp add: layers_described toLayer_def)
  from s have u: "Undefined \<notin> set (map subtype (layers (normalizeResponse epoch described_response)))"
    by simp
  from C8_export_reparse [OF r] u m
  have "reparse_export described_app = Some (result_object (normalizeResponse epoch described_response))"
    by blast
  with run_described r s u m show ?thesis by blast
qed

text \<open>
  The claim as stated makes the re-parsed object equal to the in-memory result for every
  result. The result of the sample response holds a layer built with
  \<open>subtype: undefined\<close>; \<open>JSON.stringify\<close> leaves that key out, so the re-parsed layer
  has no \<open>subtype\<close> key and the two objects differ.
\<close>

theorem C8_counterexample:
  "result (state loaded_app) = Some (normalizeResponse epoch sample_response)
   \<and> map subtype (layers (normalizeResponse epoch sample_response)) = [Absent, Undefined]
   \<and> reparse_export loaded_app = Some (result_object (without_undefined (normalizeResponse epoch sample_response)))
   \<and> map subtype (layers (without_undefined (normalizeResponse epoch sample_response))) = [Absent, Absent]
   \<and> reparse_export loaded_app \<noteq> Some (result_object (normalizeResponse epoch sample_response))"
proof -
  have r: "result (state loaded_app) = Some (normalizeResponse epoch sample_response)"
    by (simp add: loaded_app_def)
  have l: "layers (normalizeResponse epoch sample_response)
      = [defaultBackground, toLayer 1700000000000 0 sample_layer]"
    by (simp add: normalizeResponse_def sample_response_def unsortedLayers_def mapLayers_def
      hasBackground_def toLayer_def sample_layer_def defaultBackground_def byZIndex_def epoch_def)
  have s: "map subtype (layers (normalizeResponse epoch sample_response)) = [Absent, Undefined]"
    by (simp add: l defaultBackground_def toLayer_def sample_layer_def)
  have e: "reparse_export loaded_app
      = Some (result_object (without_undefined (normalizeResponse epoch sample_response)))"
    using r by (simp add: reparse_export_def handleExportJSON_def roundtrip_result)
  have w: "map subtype (layers (without_undefined (normalizeResponse epoch sample_response))) = [Absent, Absent]"
    by (simp add: without_undefined_def l defaultBackground_def toLayer_def sample_layer_def)
  have "layer_object (toLayer 1700000000000 0 sample_layer)
      \<noteq> layer_object ((toLayer 1700000000000 0 sample_layer)\<lparr> subtype := Absent, maskUrl := Absent \<rparr>)"
    by (simp add: layer_object_def toLayer_def sample_layer_def)
  then have "result_object (without_undefined (normalizeResponse epoch sample_response))
      \<noteq> result_object (normalizeResponse epoch sample_response)"
    by (simp add: result_object_def without_undefined_def l toLayer_def sample_layer_def)
  with r s e w show ?thesis by simp
qed

end
